theory Spec2Isabelle
  imports Main "HOL-Library.Monad_Syntax" "HOL-Library.Sublist" "HOL-Library.AList"
begin

section \<open>The document: elements, tree, references\<close>

text \<open>
  The script \<^verbatim>\<open>main.js\<close> works on the browser's document. The model keeps of an
  element what the script reads or writes: its tag, its \<^verbatim>\<open>id\<close> attribute, its class
  list, the declarations of its inline style (property and value, in order), the
  \<^verbatim>\<open>required\<close> property, the \<^verbatim>\<open>value\<close> property and its other attributes.
  Strings are byte lists; the Russian texts of the row templates are their UTF-8 bytes.
\<close>

record elem =
  tag :: string
  elem_id :: "string option"
  classes :: "string list"
  style :: "(string \<times> string) list"
  required :: bool
  val :: string
  attrs :: "(string \<times> string) list"

datatype node = Text string | Element elem "node list"

text \<open>
  The document is the list of the children of the document node. A reference to a node
  is its path from the document node: the index of each child on the way down. The
  JavaScript \<^verbatim>\<open>null\<close> is \<open>None\<close>.
\<close>

type_synonym path = "nat list"

datatype level = Log | Debug | Warn

text \<open>
  The state: the document, what was written to the console, and the change listeners
  registered so far (the element and the prefix its listener has captured).
\<close>

record state =
  doc :: "node list"
  console :: "(level \<times> string) list"
  listeners :: "(path \<times> string) list"

text \<open>The element a path leads to; \<open>None\<close> for a text node or a path that leads nowhere.\<close>

fun elem_at :: "node list \<Rightarrow> path \<Rightarrow> elem option" where
  "elem_at ns [] = None"
| "elem_at ns (k # p) =
     (if k < length ns
      then (case ns ! k of
              Text t \<Rightarrow> None
            | Element e cs \<Rightarrow> if p = [] then Some e else elem_at cs p)
      else None)"

fun node_at :: "node list \<Rightarrow> path \<Rightarrow> node option" where
  "node_at ns [] = None"
| "node_at ns (k # p) =
     (if k < length ns
      then (if p = [] then Some (ns ! k)
            else case ns ! k of Text t \<Rightarrow> None | Element e cs \<Rightarrow> node_at cs p)
      else None)"

text \<open>A write through a reference: the node at the path is replaced by its image.\<close>

fun modify_at :: "path \<Rightarrow> (node \<Rightarrow> node) \<Rightarrow> node list \<Rightarrow> node list" where
  "modify_at [] f ns = ns"
| "modify_at (k # p) f ns =
     (if k < length ns
      then (if p = [] then ns[k := f (ns ! k)]
            else case ns ! k of
                   Text t \<Rightarrow> ns
                 | Element e cs \<Rightarrow> ns[k := Element e (modify_at p f cs)])
      else ns)"

fun remove_at :: "path \<Rightarrow> node list \<Rightarrow> node list" where
  "remove_at [] ns = ns"
| "remove_at (k # p) ns =
     (if k < length ns
      then (if p = [] then take k ns @ drop (Suc k) ns
            else case ns ! k of
                   Text t \<Rightarrow> ns
                 | Element e cs \<Rightarrow> ns[k := Element e (remove_at p cs)])
      else ns)"

fun on_elem :: "(elem \<Rightarrow> elem) \<Rightarrow> node \<Rightarrow> node" where
  "on_elem f (Text t) = Text t"
| "on_elem f (Element e cs) = Element (f e) cs"

fun add_child :: "node \<Rightarrow> node \<Rightarrow> node" where
  "add_child n (Text t) = Text t"
| "add_child n (Element e cs) = Element e (cs @ [n])"

fun bump :: "path \<Rightarrow> path" where
  "bump [] = []"
| "bump (k # p) = Suc k # p"

text \<open>
  \<^verbatim>\<open>document.getElementById(i)\<close>: the first element in tree order (an element before
  its children, children before later siblings) whose id is \<open>i\<close>, or null.
\<close>

fun getElementById :: "node list \<Rightarrow> string \<Rightarrow> path option" where
  "getElementById [] i = None"
| "getElementById (Text t # ns) i = map_option bump (getElementById ns i)"
| "getElementById (Element e cs # ns) i =
     (if elem_id e = Some i then Some [0]
      else case getElementById cs i of
             Some p \<Rightarrow> Some (0 # p)
           | None \<Rightarrow> map_option bump (getElementById ns i))"

text \<open>
  \<^verbatim>\<open>el.closest('.' + cls)\<close>: the element itself if its class list has \<open>cls\<close>, else the
  nearest ancestor element that has it, else null. The walk ends at the document node.
\<close>

definition has_class :: "node list \<Rightarrow> path \<Rightarrow> string \<Rightarrow> bool" where
  "has_class d p cls = (case elem_at d p of None \<Rightarrow> False | Some e \<Rightarrow> cls \<in> set (classes e))"

function closest_path :: "node list \<Rightarrow> path \<Rightarrow> string \<Rightarrow> path option" where
  "closest_path d p cls =
     (if p = [] then None
      else if has_class d p cls then Some p
      else closest_path d (butlast p) cls)"
  by pat_completeness auto
termination
  by (relation "measure (\<lambda>(d, p, cls). length p)") auto

section \<open>The operations of the DOM the script uses\<close>

text \<open>
  Each operation returns the new state, or \<open>None\<close> where the browser throws a TypeError:
  a property read or a method call on null.
\<close>

definition console_write :: "level \<Rightarrow> string \<Rightarrow> state \<Rightarrow> state" where
  "console_write l msg st = st\<lparr>console := console st @ [(l, msg)]\<rparr>"

definition set_style_elem :: "string \<Rightarrow> string \<Rightarrow> elem \<Rightarrow> elem" where
  "set_style_elem prop v e = e\<lparr>style := AList.update prop v (style e)\<rparr>"

definition set_display_elem :: "string \<Rightarrow> elem \<Rightarrow> elem" where
  "set_display_elem v = set_style_elem ''display'' v"

definition set_required_elem :: "bool \<Rightarrow> elem \<Rightarrow> elem" where
  "set_required_elem b e = e\<lparr>required := b\<rparr>"

definition set_display :: "path option \<Rightarrow> string \<Rightarrow> state \<Rightarrow> state option" where
  "set_display r v st =
     (case r of
        None \<Rightarrow> None
      | Some p \<Rightarrow> Some (st\<lparr>doc := modify_at p (on_elem (set_display_elem v)) (doc st)\<rparr>))"

definition set_required :: "path option \<Rightarrow> bool \<Rightarrow> state \<Rightarrow> state option" where
  "set_required r b st =
     (case r of
        None \<Rightarrow> None
      | Some p \<Rightarrow> Some (st\<lparr>doc := modify_at p (on_elem (set_required_elem b)) (doc st)\<rparr>))"

definition appendChild :: "path option \<Rightarrow> node \<Rightarrow> state \<Rightarrow> state option" where
  "appendChild r n st =
     (case r of
        None \<Rightarrow> None
      | Some p \<Rightarrow> Some (st\<lparr>doc := modify_at p (add_child n) (doc st)\<rparr>))"

definition closest :: "path option \<Rightarrow> string \<Rightarrow> state \<Rightarrow> path option option" where
  "closest r cls st = (case r of None \<Rightarrow> None | Some p \<Rightarrow> Some (closest_path (doc st) p cls))"

definition element_remove :: "path option \<Rightarrow> state \<Rightarrow> state option" where
  "element_remove r st = (case r of None \<Rightarrow> None | Some p \<Rightarrow> Some (st\<lparr>doc := remove_at p (doc st)\<rparr>))"

section \<open>toggleServerTypeSpecificFields\<close>

text \<open>The apostrophe of the messages.\<close>

definition apo :: string where
  "apo = [CHR 0x27]"

definition toggleServerTypeSpecificFields :: "string \<Rightarrow> string \<Rightarrow> state \<Rightarrow> state option" where
  "toggleServerTypeSpecificFields serverType formPrefix st0 =
     (let st1 = console_write Debug
                  (''[toggleServerTypeSpecificFields] Called for prefix '' @ apo @ formPrefix @ apo
                     @ '' with type '' @ apo @ serverType @ apo) st0;
          stdioFieldsContainer = getElementById (doc st1) (formPrefix @ ''stdio-fields-container'');
          httpFieldsContainer = getElementById (doc st1) (formPrefix @ ''http-fields-container'');
          commandInput = getElementById (doc st1) (formPrefix @ ''command'');
          urlInput = getElementById (doc st1) (formPrefix @ ''url'');
          st2 = (if stdioFieldsContainer = None
                 then console_write Warn
                        (''[toggleServerTypeSpecificFields] Element not found: '' @ formPrefix
                           @ ''stdio-fields-container'') st1
                 else st1);
          st3 = (if httpFieldsContainer = None
                 then console_write Warn
                        (''[toggleServerTypeSpecificFields] Element not found: '' @ formPrefix
                           @ ''http-fields-container'') st2
                 else st2)
      in do {
        st4 \<leftarrow> (if stdioFieldsContainer \<noteq> None
                then set_display stdioFieldsContainer ''none'' st3 else Some st3);
        st5 \<leftarrow> (if httpFieldsContainer \<noteq> None
                then set_display httpFieldsContainer ''none'' st4 else Some st4);
        st6 \<leftarrow> (if commandInput \<noteq> None
                then set_required commandInput False st5 else Some st5);
        st7 \<leftarrow> (if urlInput \<noteq> None
                then set_required urlInput False st6 else Some st6);
        if serverType = ''stdio'' \<and> stdioFieldsContainer \<noteq> None then do {
          st8 \<leftarrow> set_display stdioFieldsContainer ''block'' st7;
          st9 \<leftarrow> (if commandInput \<noteq> None
                  then set_required commandInput True st8 else Some st8);
          Some (console_write Debug
                  (''[toggleServerTypeSpecificFields] Showing stdio fields for '' @ formPrefix) st9)
        } else if (serverType = ''sse'' \<or> serverType = ''streamable_http'')
                  \<and> httpFieldsContainer \<noteq> None then do {
          st8 \<leftarrow> set_display httpFieldsContainer ''block'' st7;
          st9 \<leftarrow> (if urlInput \<noteq> None
                  then set_required urlInput True st8 else Some st8);
          Some (console_write Debug
                  (''[toggleServerTypeSpecificFields] Showing http fields for '' @ formPrefix) st9)
        } else
          Some (console_write Debug
                  (''[toggleServerTypeSpecificFields] No specific type matched or element missing for ''
                     @ formPrefix @ '', hiding both sections.'') st7)
      })"

section \<open>The rows of the repeatable fields\<close>

text \<open>
  The texts of the templates that are not ASCII, as UTF-8: the placeholders
  of the argument, of the variable's name and of its value, and the titles of the two
  removal buttons.
\<close>

definition placeholder_argument :: string where
  "placeholder_argument =
     [CHR 0xD0, CHR 0x90, CHR 0xD1, CHR 0x80, CHR 0xD0, CHR 0xB3, CHR 0xD1, CHR 0x83,
     CHR 0xD0, CHR 0xBC, CHR 0xD0, CHR 0xB5, CHR 0xD0, CHR 0xBD, CHR 0xD1, CHR 0x82]"

definition title_remove_argument :: string where
  "title_remove_argument =
     [CHR 0xD0, CHR 0xA3, CHR 0xD0, CHR 0xB4, CHR 0xD0, CHR 0xB0, CHR 0xD0, CHR 0xBB,
     CHR 0xD0, CHR 0xB8, CHR 0xD1, CHR 0x82, CHR 0xD1, CHR 0x8C, CHR 0x20, CHR 0xD0,
     CHR 0xB0, CHR 0xD1, CHR 0x80, CHR 0xD0, CHR 0xB3, CHR 0xD1, CHR 0x83, CHR 0xD0,
     CHR 0xBC, CHR 0xD0, CHR 0xB5, CHR 0xD0, CHR 0xBD, CHR 0xD1, CHR 0x82]"

definition placeholder_env_key :: string where
  "placeholder_env_key =
     [CHR 0xD0, CHR 0x98, CHR 0xD0, CHR 0xBC, CHR 0xD1, CHR 0x8F, CHR 0x20, CHR 0xD0,
     CHR 0xBF, CHR 0xD0, CHR 0xB5, CHR 0xD1, CHR 0x80, CHR 0xD0, CHR 0xB5, CHR 0xD0,
     CHR 0xBC, CHR 0xD0, CHR 0xB5, CHR 0xD0, CHR 0xBD, CHR 0xD0, CHR 0xBD, CHR 0xD0,
     CHR 0xBE, CHR 0xD0, CHR 0xB9]"

definition placeholder_env_value :: string where
  "placeholder_env_value =
     [CHR 0xD0, CHR 0x97, CHR 0xD0, CHR 0xBD, CHR 0xD0, CHR 0xB0, CHR 0xD1, CHR 0x87,
     CHR 0xD0, CHR 0xB5, CHR 0xD0, CHR 0xBD, CHR 0xD0, CHR 0xB8, CHR 0xD0, CHR 0xB5]"

definition title_remove_env :: string where
  "title_remove_env =
     [CHR 0xD0, CHR 0xA3, CHR 0xD0, CHR 0xB4, CHR 0xD0, CHR 0xB0, CHR 0xD0, CHR 0xBB,
     CHR 0xD0, CHR 0xB8, CHR 0xD1, CHR 0x82, CHR 0xD1, CHR 0x8C, CHR 0x20, CHR 0xD0,
     CHR 0xBF, CHR 0xD0, CHR 0xB5, CHR 0xD1, CHR 0x80, CHR 0xD0, CHR 0xB5, CHR 0xD0,
     CHR 0xBC, CHR 0xD0, CHR 0xB5, CHR 0xD0, CHR 0xBD, CHR 0xD0, CHR 0xBD, CHR 0xD1,
     CHR 0x83, CHR 0xD1, CHR 0x8E]"

definition new_elem :: "string \<Rightarrow> elem" where
  "new_elem t = \<lparr>tag = t, elem_id = None, classes = [], style = [], required = False,
                  val = [], attrs = []\<rparr>"

text \<open>\<^verbatim>\<open>document.createElement(t)\<close>: a fresh element, in no document yet.\<close>

definition createElement :: "string \<Rightarrow> node" where
  "createElement t = Element (new_elem t) []"

definition classList_add :: "string list \<Rightarrow> elem \<Rightarrow> elem" where
  "classList_add toks e =
     e\<lparr>classes := fold (\<lambda>c cs. if c \<in> set cs then cs else cs @ [c]) toks (classes e)\<rparr>"

text \<open>
  Setting \<^verbatim>\<open>innerHTML\<close> replaces the children by the nodes the markup parses to. The
  line break and indentation between two tags is a text node.
\<close>

fun set_innerHTML :: "node list \<Rightarrow> node \<Rightarrow> node" where
  "set_innerHTML html (Text t) = Text t"
| "set_innerHTML html (Element e cs) = Element e html"

definition ws :: "nat \<Rightarrow> node" where
  "ws n = Text (CHR 0x0A # replicate n (CHR '' ''))"

definition remove_button :: "string \<Rightarrow> node" where
  "remove_button title =
     Element ((new_elem ''div'')\<lparr>classes := [''col'', ''s2'', ''m2'', ''l2''],
                                style := [(''padding-top'', ''10px'')]\<rparr>)
       [ws 12,
        Element ((new_elem ''button'')
                   \<lparr>classes := [''btn-floating'', ''btn-small'', ''waves-effect'', ''waves-light'',
                                ''red'', ''lighten-1''],
                    attrs := [(''type'', ''button''), (''onclick'', ''removeDynamicField(this)''),
                              (''title'', title)]\<rparr>)
          [ws 16,
           Element ((new_elem ''i'')\<lparr>classes := [''material-icons'']\<rparr>) [Text ''remove''],
           ws 12],
        ws 8]"

definition text_input :: "string list \<Rightarrow> string \<Rightarrow> string \<Rightarrow> node" where
  "text_input cls name placeholder =
     Element ((new_elem ''div'')\<lparr>classes := cls,
                                style := [(''margin-top'', ''0''), (''margin-bottom'', ''0'')]\<rparr>)
       [ws 12,
        Element ((new_elem ''input'')
                   \<lparr>attrs := [(''type'', ''text''), (''name'', name),
                              (''placeholder'', placeholder)]\<rparr>) [],
        ws 8]"

definition argument_row_html :: "node list" where
  "argument_row_html =
     [ws 8,
      text_input [''input-field'', ''col'', ''s10'', ''m10'', ''l10''] ''arg_item[]''
        placeholder_argument,
      ws 8,
      remove_button title_remove_argument,
      ws 4]"

definition env_row_html :: "node list" where
  "env_row_html =
     [ws 8,
      text_input [''input-field'', ''col'', ''s5'', ''m5'', ''l5''] ''env_key[]''
        placeholder_env_key,
      ws 8,
      text_input [''input-field'', ''col'', ''s5'', ''m5'', ''l5''] ''env_value[]''
        placeholder_env_value,
      ws 8,
      remove_button title_remove_env,
      ws 4]"

section \<open>addArgumentField, addEnvVarField, removeDynamicField\<close>

definition addArgumentField :: "string \<Rightarrow> state \<Rightarrow> state option" where
  "addArgumentField formPrefix st =
     (let container = getElementById (doc st) (formPrefix @ ''args-list-container'')
      in if container = None
         then Some (console_write Warn
                      (''[addArgumentField] Container not found: '' @ formPrefix
                         @ ''args-list-container'') st)
         else
           (let newFieldRow = createElement ''div'';
                newFieldRow = on_elem (classList_add [''row'', ''dynamic-field-row'']) newFieldRow;
                newFieldRow = on_elem (set_style_elem ''margin-bottom'' ''5px'') newFieldRow;
                newFieldRow = set_innerHTML argument_row_html newFieldRow
            in appendChild container newFieldRow st))"

definition addEnvVarField :: "string \<Rightarrow> state \<Rightarrow> state option" where
  "addEnvVarField formPrefix st =
     (let container = getElementById (doc st) (formPrefix @ ''env-vars-list-container'')
      in if container = None
         then Some (console_write Warn
                      (''[addEnvVarField] Container not found: '' @ formPrefix
                         @ ''env-vars-list-container'') st)
         else
           (let newFieldRow = createElement ''div'';
                newFieldRow = on_elem (classList_add [''row'', ''dynamic-field-row'']) newFieldRow;
                newFieldRow = on_elem (set_style_elem ''margin-bottom'' ''5px'') newFieldRow;
                newFieldRow = set_innerHTML env_row_html newFieldRow
            in appendChild container newFieldRow st))"

text \<open>
  The argument is the button that was clicked (\<^verbatim>\<open>onclick="removeDynamicField(this)"\<close>),
  or whatever element the caller passes.
\<close>

definition removeDynamicField :: "path option \<Rightarrow> state \<Rightarrow> state option" where
  "removeDynamicField buttonElement st = do {
     fieldRow \<leftarrow> closest buttonElement ''dynamic-field-row'' st;
     if fieldRow \<noteq> None then element_remove fieldRow st
     else Some (console_write Warn
                  (''[removeDynamicField] Could not find parent '' @ apo @ ''.dynamic-field-row''
                     @ apo @ '' to remove.'') st)
   }"

section \<open>The handler of DOMContentLoaded\<close>

text \<open>
  \<^verbatim>\<open>s.replace(pat, rep)\<close> with a string pattern replaces the first occurrence of
  \<open>pat\<close> in \<open>s\<close> and nothing else. (The replacement here is the empty string, which has
  none of the \<^verbatim>\<open>$\<close> patterns.)
\<close>

fun replace_first :: "string \<Rightarrow> string \<Rightarrow> string \<Rightarrow> string" where
  "replace_first pat rep s =
     (if prefix pat s then rep @ drop (length pat) s
      else case s of [] \<Rightarrow> [] | c # cs \<Rightarrow> c # replace_first pat rep cs)"

text \<open>The \<^verbatim>\<open>id\<close> property: the attribute, or the empty string without one.\<close>

definition id_prop :: "elem \<Rightarrow> string" where
  "id_prop e = (case elem_id e of None \<Rightarrow> [] | Some i \<Rightarrow> i)"

definition formPrefix_of :: "elem \<Rightarrow> string" where
  "formPrefix_of selectElement = replace_first ''server_type'' [] (id_prop selectElement)"

text \<open>
  \<^verbatim>\<open>document.querySelectorAll('select[id$="server_type"]')\<close>: the select elements
  whose id attribute ends with \<^verbatim>\<open>server_type\<close>, in tree order.
\<close>

definition is_server_type_select :: "elem \<Rightarrow> bool" where
  "is_server_type_select e =
     (tag e = ''select'' \<and> (case elem_id e of None \<Rightarrow> False | Some i \<Rightarrow> suffix ''server_type'' i))"

fun querySelectorAll_selects :: "node list \<Rightarrow> path list" where
  "querySelectorAll_selects [] = []"
| "querySelectorAll_selects (Text t # ns) = map bump (querySelectorAll_selects ns)"
| "querySelectorAll_selects (Element e cs # ns) =
     (if is_server_type_select e then [[0]] else [])
       @ map ((#) 0) (querySelectorAll_selects cs)
       @ map bump (querySelectorAll_selects ns)"

text \<open>The decimal digits of a number, as a template literal prints it.\<close>

fun dec :: "nat \<Rightarrow> string" where
  "dec n = (if n < 10 then [char_of (48 + n)] else dec (n div 10) @ [char_of (48 + n mod 10)])"

fun forEach :: "('a \<Rightarrow> state \<Rightarrow> state option) \<Rightarrow> 'a list \<Rightarrow> state \<Rightarrow> state option" where
  "forEach f [] st = Some st"
| "forEach f (x # xs) st = do { st' \<leftarrow> f x st; forEach f xs st' }"

text \<open>
  The body of the loop over the selects. The Materialize library is not part of the
  repository: its \<^verbatim>\<open>M.updateTextFields\<close> and \<^verbatim>\<open>M.AutoInit\<close> are parameters.
  The select is read through its reference; the model has no result for a reference
  that the library call has made stale. \<^verbatim>\<open>addEventListener\<close> records the listener.
\<close>

definition init_select ::
    "(path option \<Rightarrow> state \<Rightarrow> state option) \<Rightarrow> path \<Rightarrow> state \<Rightarrow> state option" where
  "init_select M_updateTextFields sel st =
     (case elem_at (doc st) sel of
        None \<Rightarrow> None
      | Some selectElement \<Rightarrow>
          (let formPrefix = formPrefix_of selectElement;
               st1 = console_write Log
                       (''Setting initial fields visibility for prefix: '' @ apo @ formPrefix @ apo
                          @ '' based on value: '' @ apo @ val selectElement @ apo) st
           in do {
             st2 \<leftarrow> toggleServerTypeSpecificFields (val selectElement) formPrefix st1;
             let st3 = st2\<lparr>listeners := listeners st2 @ [(sel, formPrefix)]\<rparr>;
                 wrapper = getElementById (doc st3) (formPrefix @ ''form-wrapper'')
             in if wrapper \<noteq> None then do {
                  st4 \<leftarrow> M_updateTextFields wrapper st3;
                  Some (console_write Log
                          (''Updated text fields for wrapper '' @ apo @ formPrefix
                             @ ''form-wrapper'' @ apo @ ''.'') st4)
                } else Some st3
           }))"

definition onDOMContentLoaded ::
    "(state \<Rightarrow> state option) \<Rightarrow> (path option \<Rightarrow> state \<Rightarrow> state option)
       \<Rightarrow> state \<Rightarrow> state option" where
  "onDOMContentLoaded M_AutoInit M_updateTextFields st = do {
     st1 \<leftarrow> M_AutoInit st;
     let st2 = console_write Log ''Materialize components initialized via M.AutoInit().'' st1;
         serverTypeSelects = querySelectorAll_selects (doc st2);
         st3 = console_write Log
                 (''Found '' @ dec (length serverTypeSelects)
                    @ '' server type select(s) for initial state setup.'') st2
     in forEach (init_select M_updateTextFields) serverTypeSelects st3
   }"

text \<open>The change listener that \<open>init_select\<close> registers, run with the select's value.\<close>

definition on_change :: "string \<Rightarrow> string \<Rightarrow> state \<Rightarrow> state option" where
  "on_change formPrefix this_value st =
     toggleServerTypeSpecificFields this_value formPrefix
       (console_write Log
          (''Server type changed for prefix: '' @ apo @ formPrefix @ apo @ '' to value: ''
             @ apo @ this_value @ apo) st)"

section \<open>What is observed of a document\<close>

text \<open>
  The element that \<^verbatim>\<open>getElementById\<close> finds, read in the same document. A section is
  hidden when its inline style has \<^verbatim>\<open>display: none\<close>; it is shown when it is in the
  document and not hidden.
\<close>

definition lookup :: "node list \<Rightarrow> string \<Rightarrow> elem option" where
  "lookup d i = (case getElementById d i of None \<Rightarrow> None | Some p \<Rightarrow> elem_at d p)"

definition display_of :: "elem \<Rightarrow> string option" where
  "display_of e = map_of (style e) ''display''"

definition visible :: "elem \<Rightarrow> bool" where
  "visible e = (display_of e \<noteq> Some ''none'')"

definition section_shown :: "node list \<Rightarrow> string \<Rightarrow> bool" where
  "section_shown d i = (case lookup d i of None \<Rightarrow> False | Some e \<Rightarrow> visible e)"

text \<open>The children of the element at a path (none for a text node or a path that leads nowhere).\<close>

definition children_at :: "node list \<Rightarrow> path \<Rightarrow> node list" where
  "children_at d p = (case node_at d p of Some (Element e cs) \<Rightarrow> cs | _ \<Rightarrow> [])"

text \<open>The elements of a subtree, in tree order, and the text inputs among them.\<close>

fun elems_of :: "node list \<Rightarrow> elem list" where
  "elems_of [] = []"
| "elems_of (Text t # ns) = elems_of ns"
| "elems_of (Element e cs # ns) = e # elems_of cs @ elems_of ns"

definition is_text_input :: "elem \<Rightarrow> bool" where
  "is_text_input e = (tag e = ''input'' \<and> map_of (attrs e) ''type'' = Some ''text'')"

definition text_input_names :: "node \<Rightarrow> string option list" where
  "text_input_names n = map (\<lambda>e. map_of (attrs e) ''name'') (filter is_text_input (elems_of [n]))"

text \<open>
  The invariant of the specification for the form with prefix \<open>fp\<close>: at most one of the two
  sections is shown, and the command input and the url input, where the document has
  them, are required exactly when their section is the one shown.
\<close>

definition form_invariant :: "node list \<Rightarrow> string \<Rightarrow> bool" where
  "form_invariant d fp =
     (\<not> (section_shown d (fp @ ''stdio-fields-container'')
          \<and> section_shown d (fp @ ''http-fields-container''))
      \<and> (case lookup d (fp @ ''command'') of
            None \<Rightarrow> True
          | Some c \<Rightarrow> required c = section_shown d (fp @ ''stdio-fields-container''))
      \<and> (case lookup d (fp @ ''url'') of
            None \<Rightarrow> True
          | Some u \<Rightarrow> required u = section_shown d (fp @ ''http-fields-container'')))"

section \<open>A page with two forms\<close>

definition with_id :: "string \<Rightarrow> string \<Rightarrow> node list \<Rightarrow> node" where
  "with_id t i cs = Element ((new_elem t)\<lparr>elem_id := Some i\<rparr>) cs"

definition sample_form :: "string \<Rightarrow> string \<Rightarrow> node" where
  "sample_form fp v =
     Element (new_elem ''form'')
       [Element ((new_elem ''select'')\<lparr>elem_id := Some (fp @ ''server_type''), val := v\<rparr>) [],
        with_id ''div'' (fp @ ''stdio-fields-container'')
          [Text ''Command'', with_id ''input'' (fp @ ''command'') [],
           with_id ''div'' (fp @ ''args-list-container'') []],
        with_id ''div'' (fp @ ''http-fields-container'') [with_id ''input'' (fp @ ''url'') []],
        with_id ''div'' (fp @ ''env-vars-list-container'') []]"

definition sample_doc :: "node list" where
  "sample_doc = [Element (new_elem ''body'') [sample_form ''single-add-'' ''stdio'', sample_form ''edit-'' ''sse'']]"

definition sample_state :: state where
  "sample_state = \<lparr>doc = sample_doc, console = [], listeners = []\<rparr>"

text \<open>A document with a command input and no section around it.\<close>

definition lone_command_state :: state where
  "lone_command_state =
     \<lparr>doc = [Element ((new_elem ''input'')\<lparr>elem_id := Some ''command'', required := True\<rparr>) []],
      console = [], listeners = []\<rparr>"

section \<open>The writes of the toggle, collected\<close>

text \<open>
  Forms used in the proofs only: a write through a reference that may be null (the
  guarded assignments of the script), the document after the reset phase of
  \<open>toggleServerTypeSpecificFields\<close>, and the document after the whole call. Lemma
  \<open>toggle_doc\<close> below proves that the function as translated above computes them.
\<close>

definition write_at :: "path option \<Rightarrow> (elem \<Rightarrow> elem) \<Rightarrow> node list \<Rightarrow> node list" where
  "write_at r f d = (case r of None \<Rightarrow> d | Some p \<Rightarrow> modify_at p (on_elem f) d)"

definition reset_doc :: "string \<Rightarrow> node list \<Rightarrow> node list" where
  "reset_doc fp d =
     write_at (getElementById d (fp @ ''url'')) (set_required_elem False)
       (write_at (getElementById d (fp @ ''command'')) (set_required_elem False)
          (write_at (getElementById d (fp @ ''http-fields-container'')) (set_display_elem ''none'')
             (write_at (getElementById d (fp @ ''stdio-fields-container'')) (set_display_elem ''none'') d)))"

definition toggled_doc :: "string \<Rightarrow> string \<Rightarrow> node list \<Rightarrow> node list" where
  "toggled_doc v fp d =
     (if v = ''stdio'' \<and> getElementById d (fp @ ''stdio-fields-container'') \<noteq> None
      then write_at (getElementById d (fp @ ''command'')) (set_required_elem True)
             (write_at (getElementById d (fp @ ''stdio-fields-container'')) (set_display_elem ''block'')
                (reset_doc fp d))
      else if (v = ''sse'' \<or> v = ''streamable_http'')
              \<and> getElementById d (fp @ ''http-fields-container'') \<noteq> None
      then write_at (getElementById d (fp @ ''url'')) (set_required_elem True)
             (write_at (getElementById d (fp @ ''http-fields-container'')) (set_display_elem ''block'')
                (reset_doc fp d))
      else reset_doc fp d)"

text \<open>The suffixes of the ids that the claims about the toggle name.\<close>

definition id_suffixes :: "string set" where
  "id_suffixes = {''server_type'', ''stdio-fields-container'', ''http-fields-container'',
                  ''command'', ''url''}"

text \<open>
  Two references are apart when they cannot name the same element; \<open>writes4\<close> is one
  write through each of four references.
\<close>

definition apart :: "path option \<Rightarrow> path option \<Rightarrow> bool" where
  "apart r r' = (r = None \<or> r' = None \<or> r \<noteq> r')"

definition writes4 ::
    "path option \<Rightarrow> path option \<Rightarrow> path option \<Rightarrow> path option
       \<Rightarrow> (elem \<Rightarrow> elem) \<Rightarrow> (elem \<Rightarrow> elem) \<Rightarrow> (elem \<Rightarrow> elem) \<Rightarrow> (elem \<Rightarrow> elem)
       \<Rightarrow> node list \<Rightarrow> node list" where
  "writes4 s h c u a b x y d = write_at u y (write_at c x (write_at h b (write_at s a d)))"

text \<open>
  The row that both insertions build before they fill it: a \<^verbatim>\<open>div\<close> with the classes
  \<^verbatim>\<open>row\<close> and \<^verbatim>\<open>dynamic-field-row\<close> and a bottom margin, around the parsed markup.
  Lemma \<open>new_row\<close> proves that the steps of the script produce it.
\<close>

definition field_row :: "node list \<Rightarrow> node" where
  "field_row html =
     Element ((new_elem ''div'')\<lparr>classes := [''row'', ''dynamic-field-row''],
                                style := [(''margin-bottom'', ''5px'')]\<rparr>) html"

text \<open>A container holding one row with a button, for the removal.\<close>

definition one_row_state :: state where
  "one_row_state =
     \<lparr>doc = [with_id ''div'' ''args-list-container''
               [Element ((new_elem ''div'')\<lparr>classes := [''row'', ''dynamic-field-row'']\<rparr>)
                  [Element (new_elem ''button'') []]]],
      console = [], listeners = []\<rparr>"

text \<open>
  A form after a call with variant \<^verbatim>\<open>stdio\<close>: the stdio section shown, with the
  command input (required) and a list of arguments holding one row; the http section
  hidden, with the url input.
\<close>

definition settled_state :: state where
  "settled_state =
     \<lparr>doc =
        [Element ((new_elem ''div'')\<lparr>elem_id := Some ''stdio-fields-container'',
                                     style := [(''display'', ''block'')]\<rparr>)
           [Element ((new_elem ''input'')\<lparr>elem_id := Some ''command'', required := True\<rparr>) [],
            with_id ''div'' ''args-list-container''
              [Element ((new_elem ''div'')\<lparr>classes := [''row'', ''dynamic-field-row'']\<rparr>)
                 [Element (new_elem ''button'') []]]],
         Element ((new_elem ''div'')\<lparr>elem_id := Some ''http-fields-container'',
                                     style := [(''display'', ''none'')]\<rparr>)
           [with_id ''input'' ''url'' []]],
      console = [], listeners = []\<rparr>"

text \<open>
  A page whose stdio section carries the class of the rows and holds a button; the http
  section, the command input and the url input follow it.
\<close>

definition marked_section_state :: state where
  "marked_section_state =
     \<lparr>doc =
        [Element ((new_elem ''div'')\<lparr>elem_id := Some ''stdio-fields-container'',
                                     classes := [''dynamic-field-row'']\<rparr>)
           [Element (new_elem ''button'') []],
         with_id ''div'' ''http-fields-container'' [],
         with_id ''input'' ''command'' [],
         with_id ''input'' ''url'' []],
      console = [], listeners = []\<rparr>"

text \<open>A form without its command input.\<close>

definition no_command_state :: state where
  "no_command_state =
     \<lparr>doc = [with_id ''div'' ''stdio-fields-container'' [],
             with_id ''div'' ''http-fields-container'' [],
             with_id ''input'' ''url'' []],
      console = [], listeners = []\<rparr>"

text \<open>
  A form whose prefix itself contains \<^verbatim>\<open>server_type\<close>: the select has the id
  \<^verbatim>\<open>server_types-server_type\<close> and the value \<^verbatim>\<open>stdio\<close>, and the sections and inputs
  have the ids of the prefix \<^verbatim>\<open>server_types-\<close>.
\<close>

definition plural_select :: elem where
  "plural_select = (new_elem ''select'')\<lparr>elem_id := Some ''server_types-server_type'', val := ''stdio''\<rparr>"

definition plural_state :: state where
  "plural_state =
     \<lparr>doc = [Element plural_select [],
             with_id ''div'' ''server_types-stdio-fields-container'' [],
             with_id ''div'' ''server_types-http-fields-container'' [],
             with_id ''input'' ''server_types-command'' [],
             with_id ''input'' ''server_types-url'' []],
      console = [], listeners = []\<rparr>"

declare closest_path.simps [simp del]
declare replace_first.simps [simp del]
declare dec.simps [simp del]

section \<open>References and writes\<close>

lemma bump_eq_Nil [simp]: "(bump p = []) = (p = [])"
  by (cases p) auto

lemma getElementById_nonempty: "getElementById d i = Some p \<Longrightarrow> p \<noteq> []"
  by (induction d i arbitrary: p rule: getElementById.induct) (auto split: if_splits option.splits)

lemma elem_at_bump: "p \<noteq> [] \<Longrightarrow> elem_at (n # ns) (bump p) = elem_at ns p"
  by (cases p) auto

lemma getElementById_elem:
  "getElementById d i = Some p \<Longrightarrow> \<exists>e. elem_at d p = Some e \<and> elem_id e = Some i"
proof (induction d i arbitrary: p rule: getElementById.induct)
  case (1 i)
  then show ?case by simp
next
  case (2 t ns i)
  then obtain r where r: "getElementById ns i = Some r" and p: "p = bump r" by auto
  from r have "r \<noteq> []" by (rule getElementById_nonempty)
  with 2 r p show ?case by (simp add: elem_at_bump)
next
  case (3 e cs ns i)
  show ?case
  proof (cases "elem_id e = Some i")
    case True
    with 3 show ?thesis by auto
  next
    case False
    show ?thesis
    proof (cases "getElementById cs i")
      case None
      with 3 False obtain r where r: "getElementById ns i = Some r" and p: "p = bump r" by auto
      from r have "r \<noteq> []" by (rule getElementById_nonempty)
      with 3 False None r p show ?thesis by (simp add: elem_at_bump)
    next
      case (Some r)
      from Some have "r \<noteq> []" by (rule getElementById_nonempty)
      with 3 False Some show ?thesis by auto
    qed
  qed
qed

lemma length_modify_at [simp]: "length (modify_at p f d) = length d"
  by (induction p f d rule: modify_at.induct) (auto split: node.splits)

lemma elem_at_modify:
  "elem_at (modify_at p (on_elem f) d) r = (if r = p then map_option f (elem_at d p) else elem_at d r)"
proof (induction p arbitrary: d r)
  case Nil
  then show ?case by simp
next
  case (Cons k p)
  show ?case
  proof (cases r)
    case Nil
    then show ?thesis by simp
  next
    case (Cons j r')
    show ?thesis
      using Cons.IH Cons
      by (cases "d ! k"; cases "d ! j") (auto simp: nth_list_update split: node.splits)
  qed
qed

lemma modify_at_Cons_0:
  "modify_at (0 # p) f (n # ns) =
     (if p = [] then f n
      else (case n of Text t \<Rightarrow> n | Element e cs \<Rightarrow> Element e (modify_at p f cs))) # ns"
  by (cases n) auto

lemma modify_at_Cons_Suc: "modify_at (Suc k # p) f (n # ns) = n # modify_at (k # p) f ns"
  by (cases "ns ! k") auto

lemma getElementById_modify:
  assumes "\<And>e. elem_id (f e) = elem_id e"
  shows "getElementById (modify_at p (on_elem f) d) i = getElementById d i"
proof (induction d i arbitrary: p rule: getElementById.induct)
  case (1 i)
  then show ?case by (cases p) auto
next
  case (2 t ns i)
  show ?case
  proof (cases p)
    case Nil
    then show ?thesis by simp
  next
    case (Cons k p')
    show ?thesis
    proof (cases k)
      case 0
      with Cons show ?thesis by (simp add: modify_at_Cons_0 del: modify_at.simps)
    next
      case (Suc j)
      with Cons 2 show ?thesis by (simp add: modify_at_Cons_Suc del: modify_at.simps)
    qed
  qed
next
  case (3 e cs ns i)
  show ?case
  proof (cases p)
    case Nil
    then show ?thesis by simp
  next
    case (Cons k p')
    show ?thesis
    proof (cases k)
      case 0
      with Cons 3 assms show ?thesis by (simp add: modify_at_Cons_0 del: modify_at.simps)
    next
      case (Suc j)
      with Cons 3 show ?thesis
        by (simp add: modify_at_Cons_Suc del: modify_at.simps split: option.splits)
    qed
  qed
qed

lemma elem_id_set_style [simp]: "elem_id (set_style_elem k v e) = elem_id e"
  by (simp add: set_style_elem_def)

lemma elem_id_set_display [simp]: "elem_id (set_display_elem v e) = elem_id e"
  by (simp add: set_display_elem_def)

lemma elem_id_set_required [simp]: "elem_id (set_required_elem b e) = elem_id e"
  by (simp add: set_required_elem_def)

lemma getElementById_set_display [simp]:
  "getElementById (modify_at p (on_elem (set_display_elem v)) d) i = getElementById d i"
  by (rule getElementById_modify) simp

lemma getElementById_set_required [simp]:
  "getElementById (modify_at p (on_elem (set_required_elem b)) d) i = getElementById d i"
  by (rule getElementById_modify) simp

lemma doc_console_write [simp]: "doc (console_write l m st) = doc st"
  by (simp add: console_write_def)

lemma guarded_set_display:
  "(if r \<noteq> None then set_display r v st else Some st)
     = Some (st\<lparr>doc := write_at r (set_display_elem v) (doc st)\<rparr>)"
  by (cases r) (simp_all add: set_display_def write_at_def)

lemma guarded_set_required:
  "(if r \<noteq> None then set_required r b st else Some st)
     = Some (st\<lparr>doc := write_at r (set_required_elem b) (doc st)\<rparr>)"
  by (cases r) (simp_all add: set_required_def write_at_def)

lemma present_set_display:
  "r \<noteq> None \<Longrightarrow> set_display r v st = Some (st\<lparr>doc := write_at r (set_display_elem v) (doc st)\<rparr>)"
  by (cases r) (simp_all add: set_display_def write_at_def)

lemma listeners_console_write [simp]: "listeners (console_write l m st) = listeners st"
  by (simp add: console_write_def)

lemma console_write_cong: "st = st' \<Longrightarrow> console_write l m st = console_write l m st'"
  by simp

lemma toggle_doc:
  "\<exists>st'. toggleServerTypeSpecificFields v fp st = Some st' \<and> doc st' = toggled_doc v fp (doc st)
     \<and> listeners st' = listeners st"
  unfolding toggleServerTypeSpecificFields_def Let_def guarded_set_display guarded_set_required
  by (auto simp: present_set_display toggled_doc_def reset_doc_def cong: console_write_cong)

lemma getElementById_write_display [simp]:
  "getElementById (write_at r (set_display_elem v) d) i = getElementById d i"
  by (cases r) (simp_all add: write_at_def)

lemma getElementById_write_required [simp]:
  "getElementById (write_at r (set_required_elem b) d) i = getElementById d i"
  by (cases r) (simp_all add: write_at_def)

lemma getElementById_distinct:
  "i \<noteq> j \<Longrightarrow> getElementById d i = Some p \<Longrightarrow> getElementById d j \<noteq> Some p"
proof
  assume a: "i \<noteq> j" "getElementById d i = Some p" "getElementById d j = Some p"
  from getElementById_elem [OF a(2)] getElementById_elem [OF a(3)] a(1) show False by auto
qed

lemma elem_at_write_at:
  "elem_at (write_at r f d) p = (if r = Some p then map_option f (elem_at d p) else elem_at d p)"
  by (cases r) (auto simp: write_at_def elem_at_modify)

lemma lookup_None [simp]: "(lookup d i = None) = (getElementById d i = None)"
  using getElementById_elem [of d i] by (auto simp: lookup_def split: option.splits)

lemma display_of_set_display [simp]: "display_of (set_display_elem v e) = Some v"
  by (simp add: display_of_def set_display_elem_def set_style_elem_def update_conv')

lemma display_of_set_required [simp]: "display_of (set_required_elem b e) = display_of e"
  by (simp add: display_of_def set_required_elem_def)

lemma required_set_required [simp]: "required (set_required_elem b e) = b"
  by (simp add: set_required_elem_def)

lemma required_set_display [simp]: "required (set_display_elem v e) = required e"
  by (simp add: set_display_elem_def set_style_elem_def)

lemma set_display_twice [simp]:
  "set_display_elem v (set_display_elem w e) = set_display_elem v e"
  by (simp add: set_display_elem_def set_style_elem_def)

lemma set_required_twice [simp]:
  "set_required_elem b (set_required_elem c e) = set_required_elem b e"
  by (simp add: set_required_elem_def)

lemma getElementById_write_at:
  "(\<And>e. elem_id (f e) = elem_id e) \<Longrightarrow> getElementById (write_at r f d) i = getElementById d i"
  by (cases r) (simp_all add: write_at_def getElementById_modify)

lemma lookup_write_same:
  assumes "\<And>e. elem_id (f e) = elem_id e" and "getElementById d i = getElementById d0 i"
  shows "lookup (write_at (getElementById d0 i) f d) i = map_option f (lookup d i)"
  using assms by (auto simp: lookup_def getElementById_write_at elem_at_write_at split: option.splits)

lemma lookup_write_other:
  assumes "\<And>e. elem_id (f e) = elem_id e" and "i \<noteq> j"
    and "getElementById d j = getElementById d0 j"
  shows "lookup (write_at (getElementById d0 j) f d) i = lookup d i"
proof -
  have "getElementById d i \<noteq> None \<Longrightarrow> getElementById d i \<noteq> getElementById d j"
    using getElementById_distinct [OF assms(2), of d] by (cases "getElementById d i") auto
  then show ?thesis
    using assms by (auto simp: lookup_def getElementById_write_at elem_at_write_at split: option.splits)
qed

lemma lookup_absent: "getElementById d i = None \<Longrightarrow> lookup d i = None"
  by (simp add: lookup_def)

lemma lookup_toggled_stdio:
  "lookup (toggled_doc v fp d) (fp @ ''stdio-fields-container'')
     = map_option (set_display_elem (if v = ''stdio'' then ''block'' else ''none''))
         (lookup d (fp @ ''stdio-fields-container''))"
  by (simp add: toggled_doc_def reset_doc_def lookup_write_same lookup_write_other
      option.map_comp comp_def lookup_absent)

lemma lookup_toggled_http:
  "lookup (toggled_doc v fp d) (fp @ ''http-fields-container'')
     = map_option (set_display_elem (if v = ''sse'' \<or> v = ''streamable_http'' then ''block'' else ''none''))
         (lookup d (fp @ ''http-fields-container''))"
  by (simp add: toggled_doc_def reset_doc_def lookup_write_same lookup_write_other
      option.map_comp comp_def lookup_absent)

lemma lookup_toggled_command:
  "lookup (toggled_doc v fp d) (fp @ ''command'')
     = map_option (set_required_elem
                     (v = ''stdio'' \<and> getElementById d (fp @ ''stdio-fields-container'') \<noteq> None))
         (lookup d (fp @ ''command''))"
  by (auto simp: toggled_doc_def reset_doc_def lookup_write_same lookup_write_other
      option.map_comp comp_def lookup_absent)

lemma lookup_toggled_url:
  "lookup (toggled_doc v fp d) (fp @ ''url'')
     = map_option (set_required_elem
                     ((v = ''sse'' \<or> v = ''streamable_http'')
                      \<and> getElementById d (fp @ ''http-fields-container'') \<noteq> None))
         (lookup d (fp @ ''url''))"
  by (auto simp: toggled_doc_def reset_doc_def lookup_write_same lookup_write_other
      option.map_comp comp_def lookup_absent)

lemma visible_set_display [simp]: "visible (set_display_elem v e) = (v \<noteq> ''none'')"
  by (simp add: visible_def)

section \<open>The claims about toggleServerTypeSpecificFields\<close>

text \<open>
  C1. When the document has both sections and both inputs of the form with prefix \<open>fp\<close>,
  then after \<open>toggleServerTypeSpecificFields v fp\<close> the stdio section is visible exactly
  when \<open>v\<close> is \<^verbatim>\<open>stdio\<close> (its display is then \<^verbatim>\<open>block\<close>, otherwise \<^verbatim>\<open>none\<close>), the
  http section is visible exactly when \<open>v\<close> is \<^verbatim>\<open>sse\<close> or \<^verbatim>\<open>streamable_http\<close>, the
  command input is required exactly when the stdio section is visible and the url input
  exactly when the http section is; for any other \<open>v\<close>, the empty string among them,
  both sections are hidden and neither input is required. The call returns normally.
\<close>

theorem toggle_visibility_all_present:
  assumes "getElementById (doc st) (fp @ ''stdio-fields-container'') \<noteq> None"
    and "getElementById (doc st) (fp @ ''http-fields-container'') \<noteq> None"
    and "getElementById (doc st) (fp @ ''command'') \<noteq> None"
    and "getElementById (doc st) (fp @ ''url'') \<noteq> None"
  shows "\<exists>st' s h c u.
           toggleServerTypeSpecificFields v fp st = Some st'
           \<and> lookup (doc st') (fp @ ''stdio-fields-container'') = Some s
           \<and> lookup (doc st') (fp @ ''http-fields-container'') = Some h
           \<and> lookup (doc st') (fp @ ''command'') = Some c
           \<and> lookup (doc st') (fp @ ''url'') = Some u
           \<and> visible s = (v = ''stdio'')
           \<and> visible h = (v = ''sse'' \<or> v = ''streamable_http'')
           \<and> required c = visible s
           \<and> required u = visible h
           \<and> display_of s = Some (if v = ''stdio'' then ''block'' else ''none'')
           \<and> display_of h = Some (if v = ''sse'' \<or> v = ''streamable_http'' then ''block'' else ''none'')
           \<and> (v \<noteq> ''stdio'' \<and> v \<noteq> ''sse'' \<and> v \<noteq> ''streamable_http''
                \<longrightarrow> \<not> visible s \<and> \<not> visible h \<and> \<not> required c \<and> \<not> required u)"
proof -
  obtain st' where st': "toggleServerTypeSpecificFields v fp st = Some st'"
    and d: "doc st' = toggled_doc v fp (doc st)"
    using toggle_doc by blast
  obtain s0 h0 c0 u0 where l:
    "lookup (doc st) (fp @ ''stdio-fields-container'') = Some s0"
    "lookup (doc st) (fp @ ''http-fields-container'') = Some h0"
    "lookup (doc st) (fp @ ''command'') = Some c0"
    "lookup (doc st) (fp @ ''url'') = Some u0"
    using assms by (meson lookup_None not_None_eq)
  show ?thesis
    using st' assms
    by (simp add: d lookup_toggled_stdio lookup_toggled_http lookup_toggled_command
        lookup_toggled_url l)
qed

text \<open>The form with prefix \<^verbatim>\<open>edit-\<close> of the sample page, switched to \<^verbatim>\<open>stdio\<close>.\<close>

theorem toggle_visibility_all_present_witness:
  "getElementById (doc sample_state) (''edit-'' @ ''stdio-fields-container'') \<noteq> None
   \<and> getElementById (doc sample_state) (''edit-'' @ ''http-fields-container'') \<noteq> None
   \<and> getElementById (doc sample_state) (''edit-'' @ ''command'') \<noteq> None
   \<and> getElementById (doc sample_state) (''edit-'' @ ''url'') \<noteq> None
   \<and> (\<exists>st' s c. toggleServerTypeSpecificFields ''stdio'' ''edit-'' sample_state = Some st'
         \<and> lookup (doc st') (''edit-'' @ ''stdio-fields-container'') = Some s
         \<and> lookup (doc st') (''edit-'' @ ''command'') = Some c
         \<and> visible s \<and> required c)"
proof -
  have h1: "getElementById (doc sample_state) (''edit-'' @ ''stdio-fields-container'') \<noteq> None"
    by code_simp
  have h2: "getElementById (doc sample_state) (''edit-'' @ ''http-fields-container'') \<noteq> None"
    by code_simp
  have h3: "getElementById (doc sample_state) (''edit-'' @ ''command'') \<noteq> None"
    by code_simp
  have h4: "getElementById (doc sample_state) (''edit-'' @ ''url'') \<noteq> None"
    by code_simp
  from toggle_visibility_all_present [OF h1 h2 h3 h4, of "''stdio''"]
  obtain st' s h c u where
    "toggleServerTypeSpecificFields ''stdio'' ''edit-'' sample_state = Some st'"
    "lookup (doc st') (''edit-'' @ ''stdio-fields-container'') = Some s"
    "lookup (doc st') (''edit-'' @ ''command'') = Some c"
    "visible s = (''stdio'' = ''stdio'')" "required c = visible s"
    by blast
  then have "\<exists>st' s c. toggleServerTypeSpecificFields ''stdio'' ''edit-'' sample_state = Some st'
         \<and> lookup (doc st') (''edit-'' @ ''stdio-fields-container'') = Some s
         \<and> lookup (doc st') (''edit-'' @ ''command'') = Some c
         \<and> visible s \<and> required c"
    by auto
  with h1 h2 h3 h4 show ?thesis by blast
qed

text \<open>
  C2, as the code has it. The claim says that with variant \<^verbatim>\<open>stdio\<close> a command input
  that is present ends up required whether or not the stdio section is present. The
  script sets \<^verbatim>\<open>required\<close> inside the branch guarded by
  \<^verbatim>\<open>serverType === 'stdio' && stdioFieldsContainer\<close>, so: for every prefix and every
  document with the command input, after the call with variant \<^verbatim>\<open>stdio\<close> the command
  input is required exactly when the stdio section is present in the document.
\<close>

theorem command_required_coupled:
  assumes "getElementById (doc st) (fp @ ''command'') \<noteq> None"
  shows "\<exists>st' c. toggleServerTypeSpecificFields ''stdio'' fp st = Some st'
           \<and> lookup (doc st') (fp @ ''command'') = Some c
           \<and> required c = (getElementById (doc st) (fp @ ''stdio-fields-container'') \<noteq> None)"
proof -
  obtain st' where st': "toggleServerTypeSpecificFields ''stdio'' fp st = Some st'"
    and d: "doc st' = toggled_doc ''stdio'' fp (doc st)"
    using toggle_doc by blast
  obtain c0 where l: "lookup (doc st) (fp @ ''command'') = Some c0"
    using assms by (meson lookup_None not_None_eq)
  show ?thesis using st' by (simp add: d lookup_toggled_command l)
qed

text \<open>The form with prefix \<^verbatim>\<open>single-add-\<close> of the sample page, which has its stdio section.\<close>

theorem command_required_coupled_witness:
  "getElementById (doc sample_state) (''single-add-'' @ ''command'') \<noteq> None
   \<and> (\<exists>st' c. toggleServerTypeSpecificFields ''stdio'' ''single-add-'' sample_state = Some st'
           \<and> lookup (doc st') (''single-add-'' @ ''command'') = Some c
           \<and> required c
                = (getElementById (doc sample_state) (''single-add-'' @ ''stdio-fields-container'')
                     \<noteq> None))"
proof -
  have h: "getElementById (doc sample_state) (''single-add-'' @ ''command'') \<noteq> None"
    by code_simp
  from command_required_coupled [OF h] h show ?thesis by blast
qed

text \<open>
  The counterexample to the claim as stated: the document is one command input
  (required before the call) and no stdio section, the prefix is empty. After the call
  with variant \<^verbatim>\<open>stdio\<close> the input is not required.
\<close>

theorem command_not_required_counterexample:
  "getElementById (doc lone_command_state) ([] @ ''command'') = Some [0]
   \<and> map_option doc (toggleServerTypeSpecificFields ''stdio'' [] lone_command_state)
       = Some [Element ((new_elem ''input'')\<lparr>elem_id := Some ''command'', required := False\<rparr>) []]"
  by code_simp


section \<open>Writes commute; ids of different forms\<close>

lemma on_elem_comp: "on_elem f (on_elem g n) = on_elem (f \<circ> g) n"
  by (cases n) simp_all

lemma modify_at_merge:
  "modify_at p (on_elem f) (modify_at p (on_elem g) d) = modify_at p (on_elem (f \<circ> g)) d"
proof (induction p arbitrary: d)
  case Nil
  then show ?case by simp
next
  case (Cons k p)
  then show ?case by (cases "d ! k") (auto simp: on_elem_comp)
qed

lemma modify_at_commute:
  "p \<noteq> r \<Longrightarrow> modify_at p (on_elem f) (modify_at r (on_elem g) d)
     = modify_at r (on_elem g) (modify_at p (on_elem f) d)"
proof (induction p arbitrary: r d)
  case Nil
  then show ?case by simp
next
  case (Cons k p)
  show ?case
  proof (cases r)
    case Nil
    then show ?thesis by simp
  next
    case (Cons j r')
    show ?thesis
    proof (cases "k = j")
      case False
      with Cons show ?thesis
        by (cases "d ! k"; cases "d ! j") (auto simp: list_update_swap)
    next
      case True
      with Cons Cons.prems Cons.IH [of r'] show ?thesis
        by (cases "d ! k") auto
    qed
  qed
qed


lemma write_at_merge: "write_at r f (write_at r g d) = write_at r (f \<circ> g) d"
  by (cases r) (simp_all add: write_at_def modify_at_merge)

lemma write_at_commute:
  "apart r r' \<Longrightarrow> write_at r f (write_at r' g d) = write_at r' g (write_at r f d)"
  by (cases r; cases r') (auto simp: write_at_def apart_def modify_at_commute)

lemma writes4_u: "write_at u f (writes4 s h c u a b x y d) = writes4 s h c u a b x (f \<circ> y) d"
  by (simp add: writes4_def write_at_merge)

lemma writes4_c:
  assumes "apart c u"
  shows "write_at c f (writes4 s h c u a b x y d) = writes4 s h c u a b (f \<circ> x) y d"
  by (simp add: writes4_def write_at_commute [OF assms] write_at_merge)

lemma writes4_h:
  assumes "apart h c" "apart h u"
  shows "write_at h f (writes4 s h c u a b x y d) = writes4 s h c u a (f \<circ> b) x y d"
  by (simp add: writes4_def write_at_commute [OF assms(1)] write_at_commute [OF assms(2)]
      write_at_merge)

lemma writes4_s:
  assumes "apart s h" "apart s c" "apart s u"
  shows "write_at s f (writes4 s h c u a b x y d) = writes4 s h c u (f \<circ> a) b x y d"
  by (simp add: writes4_def write_at_commute [OF assms(1)] write_at_commute [OF assms(2)]
      write_at_commute [OF assms(3)] write_at_merge)

lemma apart_getElementById: "i \<noteq> j \<Longrightarrow> apart (getElementById d i) (getElementById d j)"
  using getElementById_distinct [of i j d] by (cases "getElementById d i") (auto simp: apart_def)

lemma set_display_comp [simp]: "set_display_elem v \<circ> set_display_elem w = set_display_elem v"
  by (simp add: fun_eq_iff)

lemma set_required_comp [simp]: "set_required_elem b \<circ> set_required_elem c = set_required_elem b"
  by (simp add: fun_eq_iff)

lemma toggled_doc_writes4:
  "toggled_doc v fp d =
     writes4 (getElementById d (fp @ ''stdio-fields-container''))
       (getElementById d (fp @ ''http-fields-container''))
       (getElementById d (fp @ ''command''))
       (getElementById d (fp @ ''url''))
       (set_display_elem
          (if v = ''stdio'' \<and> getElementById d (fp @ ''stdio-fields-container'') \<noteq> None
           then ''block'' else ''none''))
       (set_display_elem
          (if (v = ''sse'' \<or> v = ''streamable_http'')
              \<and> getElementById d (fp @ ''http-fields-container'') \<noteq> None
           then ''block'' else ''none''))
       (set_required_elem
          (v = ''stdio'' \<and> getElementById d (fp @ ''stdio-fields-container'') \<noteq> None))
       (set_required_elem
          ((v = ''sse'' \<or> v = ''streamable_http'')
           \<and> getElementById d (fp @ ''http-fields-container'') \<noteq> None))
       d"
proof -
  have r: "reset_doc fp d =
     writes4 (getElementById d (fp @ ''stdio-fields-container''))
       (getElementById d (fp @ ''http-fields-container''))
       (getElementById d (fp @ ''command''))
       (getElementById d (fp @ ''url''))
       (set_display_elem ''none'') (set_display_elem ''none'')
       (set_required_elem False) (set_required_elem False) d"
    by (simp add: reset_doc_def writes4_def)
  show ?thesis
    unfolding toggled_doc_def r
    by (auto simp: writes4_s writes4_h writes4_c writes4_u apart_getElementById)
qed

lemma getElementById_writes4:
  "getElementById (writes4 s h c u (set_display_elem v) (set_display_elem w)
       (set_required_elem b) (set_required_elem b') d) i = getElementById d i"
  by (simp add: writes4_def)

lemma writes4_twice:
  assumes "apart s h" "apart s c" "apart s u" "apart h c" "apart h u" "apart c u"
  shows "writes4 s h c u a b x y (writes4 s h c u a b x y d)
           = writes4 s h c u (a \<circ> a) (b \<circ> b) (x \<circ> x) (y \<circ> y) d"
proof -
  have "writes4 s h c u a b x y (writes4 s h c u a b x y d)
      = write_at u y (write_at c x (write_at h b (write_at s a (writes4 s h c u a b x y d))))"
    by (simp add: writes4_def)
  also have "\<dots> = writes4 s h c u (a \<circ> a) (b \<circ> b) (x \<circ> x) (y \<circ> y) d"
    by (simp only: writes4_s [OF assms(1,2,3)] writes4_h [OF assms(4,5)] writes4_c [OF assms(6)]
        writes4_u)
  finally show ?thesis .
qed

lemma toggled_doc_idem: "toggled_doc v fp (toggled_doc v fp d) = toggled_doc v fp d"
proof -
  have g: "\<And>i. getElementById (toggled_doc v fp d) i = getElementById d i"
    by (simp add: toggled_doc_def reset_doc_def)
  show ?thesis
    apply (subst toggled_doc_writes4)
    apply (simp only: g)
    apply (subst toggled_doc_writes4)
    apply (subst writes4_twice)
          apply (simp_all add: apart_getElementById toggled_doc_writes4)
    done
qed

lemma suffix_id_suffixes:
  "x \<in> id_suffixes \<Longrightarrow> y \<in> id_suffixes \<Longrightarrow> suffix x y \<Longrightarrow> x = y"
  unfolding id_suffixes_def
  by (auto simp: suffix_to_prefix)

lemma prefixed_id_eq:
  assumes "a @ x = b @ y" "x \<in> id_suffixes" "y \<in> id_suffixes"
  shows "a = b"
proof -
  have "suffix x (a @ x)" by (simp add: suffix_def)
  moreover have "suffix y (a @ x)" unfolding assms(1) by (simp add: suffix_def)
  ultimately
  have "suffix x y \<or> suffix y x" by (rule suffix_same_cases)
  with assms(2,3) have "x = y" using suffix_id_suffixes by blast
  with assms(1) show ?thesis by simp
qed

lemma elem_at_toggled_other:
  assumes "elem_at d p = Some e"
    and "elem_id e \<noteq> Some (fp @ ''stdio-fields-container'')"
    and "elem_id e \<noteq> Some (fp @ ''http-fields-container'')"
    and "elem_id e \<noteq> Some (fp @ ''command'')"
    and "elem_id e \<noteq> Some (fp @ ''url'')"
  shows "elem_at (toggled_doc v fp d) p = Some e"
proof -
  have n: "\<And>i. elem_id e \<noteq> Some i \<Longrightarrow> getElementById d i \<noteq> Some p"
    using assms(1) getElementById_elem by fastforce
  show ?thesis
    using assms n
    by (simp add: toggled_doc_def reset_doc_def elem_at_write_at)
qed



text \<open>
  C7. Calling \<open>toggleServerTypeSpecificFields\<close> twice in a row with the same variant and
  prefix leaves the document exactly as one call does, whatever the variant, the prefix
  and the document before; both calls return normally. (The console gets the messages
  of both calls; the claim is about the document.)
\<close>

theorem toggle_idempotent:
  "\<exists>st1 st2. toggleServerTypeSpecificFields v fp st = Some st1
      \<and> toggleServerTypeSpecificFields v fp st1 = Some st2
      \<and> doc st2 = doc st1"
proof -
  obtain st1 where 1: "toggleServerTypeSpecificFields v fp st = Some st1"
    and d1: "doc st1 = toggled_doc v fp (doc st)"
    using toggle_doc by blast
  obtain st2 where 2: "toggleServerTypeSpecificFields v fp st1 = Some st2"
    and d2: "doc st2 = toggled_doc v fp (doc st1)"
    using toggle_doc by blast
  have "doc st2 = doc st1" by (simp add: d2 d1 toggled_doc_idem)
  with 1 2 show ?thesis by blast
qed

text \<open>Two calls with \<^verbatim>\<open>sse\<close> for the form \<^verbatim>\<open>edit-\<close> of the sample page.\<close>

theorem toggle_idempotent_witness:
  "\<exists>st1 st2. toggleServerTypeSpecificFields ''sse'' ''edit-'' sample_state = Some st1
      \<and> toggleServerTypeSpecificFields ''sse'' ''edit-'' st1 = Some st2
      \<and> doc st2 = doc st1"
  using toggle_idempotent [of "''sse''" "''edit-''" sample_state] .

text \<open>
  C9. For distinct prefixes \<open>fpA\<close> and \<open>fpB\<close>, the call
  \<open>toggleServerTypeSpecificFields v fpA\<close> leaves unchanged every element of the document
  whose id is \<open>fpB\<close> followed by one of \<^verbatim>\<open>server_type\<close>, \<^verbatim>\<open>stdio-fields-container\<close>,
  \<^verbatim>\<open>http-fields-container\<close>, \<^verbatim>\<open>command\<close>, \<^verbatim>\<open>url\<close>: the element at the same place
  is the same after the call, and \<^verbatim>\<open>getElementById\<close> finds the same element for that id.
  Unchanged is said of the element itself (tag, id, classes, style, required, value,
  attributes).
\<close>

theorem toggle_other_prefix_unchanged:
  assumes "fpA \<noteq> fpB"
    and "sfx \<in> id_suffixes"
    and "elem_at (doc st) p = Some e"
    and "elem_id e = Some (fpB @ sfx)"
  shows "\<exists>st'. toggleServerTypeSpecificFields v fpA st = Some st'
           \<and> elem_at (doc st') p = Some e
           \<and> lookup (doc st') (fpB @ sfx) = lookup (doc st) (fpB @ sfx)"
proof -
  obtain st' where st': "toggleServerTypeSpecificFields v fpA st = Some st'"
    and d: "doc st' = toggled_doc v fpA (doc st)"
    using toggle_doc by blast
  have ne: "\<And>x. x \<in> id_suffixes \<Longrightarrow> fpA @ x \<noteq> fpB @ sfx"
    using prefixed_id_eq assms(1,2) by blast
  have m: "''stdio-fields-container'' \<in> id_suffixes" "''http-fields-container'' \<in> id_suffixes"
    "''command'' \<in> id_suffixes" "''url'' \<in> id_suffixes"
    by (simp_all add: id_suffixes_def)
  have other: "\<And>e'. elem_id e' = Some (fpB @ sfx) \<Longrightarrow>
      elem_id e' \<noteq> Some (fpA @ ''stdio-fields-container'')
      \<and> elem_id e' \<noteq> Some (fpA @ ''http-fields-container'')
      \<and> elem_id e' \<noteq> Some (fpA @ ''command'')
      \<and> elem_id e' \<noteq> Some (fpA @ ''url'')"
    using ne [OF m(1)] ne [OF m(2)] ne [OF m(3)] ne [OF m(4)] by simp
  have e: "elem_at (doc st') p = Some e"
    unfolding d using assms(3) other [OF assms(4)] by (intro elem_at_toggled_other) simp_all
  have g: "getElementById (doc st') (fpB @ sfx) = getElementById (doc st) (fpB @ sfx)"
    unfolding d by (simp add: toggled_doc_def reset_doc_def)
  have l: "lookup (doc st') (fpB @ sfx) = lookup (doc st) (fpB @ sfx)"
  proof (cases "getElementById (doc st) (fpB @ sfx)")
    case None
    with g show ?thesis by (simp add: lookup_def)
  next
    case (Some r)
    then obtain e' where e': "elem_at (doc st) r = Some e'" "elem_id e' = Some (fpB @ sfx)"
      using getElementById_elem by blast
    have "elem_at (doc st') r = Some e'"
      unfolding d using e'(1) other [OF e'(2)] by (intro elem_at_toggled_other) simp_all
    with g Some e' show ?thesis by (simp add: lookup_def)
  qed
  from st' e l show ?thesis by blast
qed

theorem toggle_other_prefix_unchanged_witness:
  "''single-add-'' \<noteq> ''edit-''
   \<and> ''command'' \<in> id_suffixes
   \<and> elem_at (doc sample_state) [0, 1, 1, 1] = Some ((new_elem ''input'')\<lparr>elem_id := Some ''edit-command''\<rparr>)
   \<and> elem_id ((new_elem ''input'')\<lparr>elem_id := Some ''edit-command''\<rparr>) = Some (''edit-'' @ ''command'')
   \<and> (\<exists>st'. toggleServerTypeSpecificFields ''stdio'' ''single-add-'' sample_state = Some st'
          \<and> elem_at (doc st') [0, 1, 1, 1] = Some ((new_elem ''input'')\<lparr>elem_id := Some ''edit-command''\<rparr>))"
proof -
  have h1: "''single-add-'' \<noteq> ''edit-''" by simp
  have h2: "''command'' \<in> id_suffixes" by (simp add: id_suffixes_def)
  have h3: "elem_at (doc sample_state) [0, 1, 1, 1]
              = Some ((new_elem ''input'')\<lparr>elem_id := Some ''edit-command''\<rparr>)"
    by code_simp
  have h4: "elem_id ((new_elem ''input'')\<lparr>elem_id := Some ''edit-command''\<rparr>)
              = Some (''edit-'' @ ''command'')"
    by simp
  from toggle_other_prefix_unchanged [OF h1 h2 h3 h4, of "''stdio''"] h1 h2 h3 h4
  show ?thesis by blast
qed

section \<open>Rows: nearest marked ancestor, appended child\<close>

lemma has_class_nonempty: "has_class d p cls \<Longrightarrow> p \<noteq> []"
  by (auto simp: has_class_def)

lemma closest_path_self: "has_class d p cls \<Longrightarrow> closest_path d p cls = Some p"
  by (subst closest_path.simps) (auto dest: has_class_nonempty)

lemma prefix_butlast_cases:
  "p \<noteq> [] \<Longrightarrow> prefix q p = (q = p \<or> prefix q (butlast p))"
  using prefix_snoc [of q "butlast p" "last p"] by simp

lemma closest_path_None_iff:
  "(closest_path d p cls = None) = (\<forall>q. q \<noteq> [] \<and> prefix q p \<longrightarrow> \<not> has_class d q cls)"
proof (induction d p cls rule: closest_path.induct)
  case (1 d p cls)
  show ?case
  proof (cases "p = []")
    case True
    then show ?thesis by (subst closest_path.simps) simp
  next
    case False
    show ?thesis
    proof (cases "has_class d p cls")
      case True
      with False show ?thesis by (subst closest_path.simps) auto
    next
      case h: False
      have "closest_path d p cls = closest_path d (butlast p) cls"
        using False h by (subst closest_path.simps) simp
      with 1 [OF False h] False h show ?thesis
        by (auto simp: prefix_butlast_cases)
    qed
  qed
qed

lemma closest_path_above:
  assumes "has_class d q cls"
    and "\<And>r'. r' \<noteq> [] \<Longrightarrow> prefix r' r \<Longrightarrow> \<not> has_class d (q @ r') cls"
  shows "closest_path d (q @ r) cls = Some q"
  using assms(2)
proof (induction r rule: rev_induct)
  case Nil
  with assms(1) show ?case by (simp add: closest_path_self)
next
  case (snoc x r)
  have n: "\<not> has_class d (q @ r @ [x]) cls" using snoc.prems [of "r @ [x]"] by simp
  have "closest_path d (q @ r @ [x]) cls = closest_path d (butlast (q @ r @ [x])) cls"
    using n by (subst closest_path.simps) simp
  also have "\<dots> = closest_path d (q @ r) cls" by (simp add: butlast_append)
  also have "\<dots> = Some q" using snoc.prems by (intro snoc.IH) auto
  finally show ?case by simp
qed


lemma elem_at_node_at: "(elem_at d p = Some e) = (\<exists>cs. node_at d p = Some (Element e cs))"
proof (induction p arbitrary: d)
  case Nil
  then show ?case by simp
next
  case (Cons k p)
  then show ?case by (cases "d ! k") auto
qed

lemma elem_at_below:
  "node_at d c = Some (Element e cs) \<Longrightarrow> elem_at d (c @ k # r) = elem_at cs (k # r)"
proof (induction c arbitrary: d)
  case Nil
  then show ?case by simp
next
  case (Cons j c)
  then show ?case by (cases "d ! j") (auto split: if_splits)
qed

lemma node_at_add_child:
  "node_at d c = Some (Element e cs)
     \<Longrightarrow> node_at (modify_at c (add_child n) d) c = Some (Element e (cs @ [n]))"
proof (induction c arbitrary: d)
  case Nil
  then show ?case by simp
next
  case (Cons j c)
  then show ?case by (cases "d ! j") (auto split: if_splits)
qed

lemma remove_added_child:
  "node_at d c = Some (Element e cs)
     \<Longrightarrow> remove_at (c @ [length cs]) (modify_at c (add_child n) d) = d"
proof (induction c arbitrary: d)
  case Nil
  then show ?case by simp
next
  case (Cons j c)
  then show ?case by (cases "d ! j") (auto split: if_splits simp: list_update_same_conv)
qed

lemma elem_at_Cons_Suc: "elem_at (n # ns) (Suc k # p) = elem_at ns (k # p)"
  by simp

lemma elem_at_elems_of: "elem_at ns q = Some e \<Longrightarrow> e \<in> set (elems_of ns)"
proof (induction ns arbitrary: q rule: elems_of.induct)
  case 1
  then show ?case by (cases q) auto
next
  case (2 t ns)
  then obtain k p where q: "q = k # p" by (cases q) auto
  show ?case
  proof (cases k)
    case 0
    with 2 q show ?thesis by simp
  next
    case (Suc j)
    have "elem_at ns (j # p) = Some e" using "2.prems" unfolding q Suc elem_at_Cons_Suc .
    then have "e \<in> set (elems_of ns)" by (rule "2.IH")
    then show ?thesis by simp
  qed
next
  case (3 e' cs ns)
  then obtain k p where q: "q = k # p" by (cases q) auto
  show ?case
  proof (cases k)
    case 0
    with 3 q show ?thesis by (auto split: if_splits)
  next
    case (Suc j)
    have "elem_at ns (j # p) = Some e" using "3.prems" unfolding q Suc elem_at_Cons_Suc .
    then have "e \<in> set (elems_of ns)" by (rule "3.IH"(2))
    then show ?thesis by simp
  qed
qed


lemma new_row:
  "set_innerHTML html
     (on_elem (set_style_elem ''margin-bottom'' ''5px'')
        (on_elem (classList_add [''row'', ''dynamic-field-row'']) (createElement ''div'')))
     = field_row html"
  by (simp add: createElement_def classList_add_def set_style_elem_def field_row_def new_elem_def)

lemma addArgumentField_present:
  "getElementById (doc st) (fp @ ''args-list-container'') = Some c
     \<Longrightarrow> addArgumentField fp st
           = Some (st\<lparr>doc := modify_at c (add_child (field_row argument_row_html)) (doc st)\<rparr>)"
  by (simp add: addArgumentField_def Let_def new_row appendChild_def)

lemma addEnvVarField_present:
  "getElementById (doc st) (fp @ ''env-vars-list-container'') = Some c
     \<Longrightarrow> addEnvVarField fp st
           = Some (st\<lparr>doc := modify_at c (add_child (field_row env_row_html)) (doc st)\<rparr>)"
  by (simp add: addEnvVarField_def Let_def new_row appendChild_def)

lemma getElementById_node:
  "getElementById d i = Some c \<Longrightarrow> \<exists>e cs. node_at d c = Some (Element e cs)"
  using getElementById_elem [of d i c] by (auto simp: elem_at_node_at)

lemma children_at_add_child:
  "node_at d c = Some (Element e cs)
     \<Longrightarrow> children_at (modify_at c (add_child n) d) c = children_at d c @ [n]"
  by (simp add: children_at_def node_at_add_child)

lemma closest_in_added_row:
  assumes "node_at d c = Some (Element e cs)"
    and "\<And>x. x \<in> set (elems_of html) \<Longrightarrow> cls \<notin> set (classes x)"
    and "cls \<in> {''row'', ''dynamic-field-row''}"
  shows "closest_path (modify_at c (add_child (field_row html)) d) (c @ length cs # r) cls
           = Some (c @ [length cs])"
proof -
  let ?d = "modify_at c (add_child (field_row html)) d"
  have n: "node_at ?d c = Some (Element e (cs @ [field_row html]))"
    using assms(1) by (rule node_at_add_child)
  have at: "\<And>r'. elem_at ?d (c @ length cs # r')
              = (if r' = [] then Some ((new_elem ''div'')\<lparr>classes := [''row'', ''dynamic-field-row''],
                                style := [(''margin-bottom'', ''5px'')]\<rparr>)
                 else elem_at html r')"
    by (subst elem_at_below [OF n]) (simp add: field_row_def)
  have top: "has_class ?d (c @ [length cs]) cls"
    using assms(3) by (auto simp: has_class_def at)
  have below: "\<not> has_class ?d ((c @ [length cs]) @ r') cls" if "r' \<noteq> []" for r'
    using that assms(2) elem_at_elems_of [of html r']
    by (auto simp: has_class_def at split: option.splits)
  have "closest_path ?d ((c @ [length cs]) @ r) cls = Some (c @ [length cs])"
    using top below by (intro closest_path_above) auto
  then show ?thesis by simp
qed

lemma argument_row_no_marker:
  "x \<in> set (elems_of argument_row_html) \<Longrightarrow> ''dynamic-field-row'' \<notin> set (classes x)"
  by (auto simp: argument_row_html_def text_input_def remove_button_def ws_def new_elem_def)

lemma env_row_no_marker:
  "x \<in> set (elems_of env_row_html) \<Longrightarrow> ''dynamic-field-row'' \<notin> set (classes x)"
  by (auto simp: env_row_html_def text_input_def remove_button_def ws_def new_elem_def)

lemma removeDynamicField_found:
  "closest_path (doc st) p ''dynamic-field-row'' = Some r
     \<Longrightarrow> removeDynamicField (Some p) st = Some (st\<lparr>doc := remove_at r (doc st)\<rparr>)"
  by (simp add: removeDynamicField_def closest_def element_remove_def)

lemma removeDynamicField_not_found:
  "closest_path (doc st) p ''dynamic-field-row'' = None
     \<Longrightarrow> removeDynamicField (Some p) st
           = Some (console_write Warn
                     (''[removeDynamicField] Could not find parent '' @ apo @ ''.dynamic-field-row''
                        @ apo @ '' to remove.'') st)"
  by (simp add: removeDynamicField_def closest_def cong: console_write_cong)

lemma add_then_remove:
  assumes "getElementById (doc st) i = Some c"
    and "\<And>x. x \<in> set (elems_of html) \<Longrightarrow> ''dynamic-field-row'' \<notin> set (classes x)"
  shows "children_at (modify_at c (add_child (field_row html)) (doc st)) c
           = children_at (doc st) c @ [field_row html]
         \<and> removeDynamicField (Some (c @ length (children_at (doc st) c) # r))
             (st\<lparr>doc := modify_at c (add_child (field_row html)) (doc st)\<rparr>) = Some st"
proof -
  obtain e cs where n: "node_at (doc st) c = Some (Element e cs)"
    using getElementById_node [OF assms(1)] by blast
  have k: "children_at (doc st) c = cs" using n by (simp add: children_at_def)
  have "closest_path (modify_at c (add_child (field_row html)) (doc st)) (c @ length cs # r)
          ''dynamic-field-row'' = Some (c @ [length cs])"
    using n assms(2) by (intro closest_in_added_row) auto
  then have "removeDynamicField (Some (c @ length cs # r))
             (st\<lparr>doc := modify_at c (add_child (field_row html)) (doc st)\<rparr>) = Some st"
    by (simp add: removeDynamicField_found remove_added_child [OF n])
  with k children_at_add_child [OF n] show ?thesis by simp
qed

section \<open>The claims about the rows\<close>

text \<open>
  C3, as the code has it. The claim gives the submission names as \<^verbatim>\<open>arg_item\<close>,
  \<^verbatim>\<open>env_key\<close> and \<^verbatim>\<open>env_value\<close>; the \<^verbatim>\<open>name\<close> attributes in the two templates
  are \<^verbatim>\<open>arg_item[]\<close>, \<^verbatim>\<open>env_key[]\<close> and \<^verbatim>\<open>env_value[]\<close>. So: when the container is
  present, \<open>addArgumentField\<close> appends one row as the last child of the container and
  that row contains exactly one text input, named \<^verbatim>\<open>arg_item[]\<close>; \<open>addEnvVarField\<close>
  appends one row that contains exactly two text inputs, named \<^verbatim>\<open>env_key[]\<close> and
  \<^verbatim>\<open>env_value[]\<close>, in this order.
\<close>

theorem inserted_row_field_names:
  "(getElementById (doc st) (fp @ ''args-list-container'') = Some c
      \<longrightarrow> (\<exists>st' row. addArgumentField fp st = Some st'
             \<and> children_at (doc st') c = children_at (doc st) c @ [row]
             \<and> text_input_names row = [Some ''arg_item[]'']))
   \<and> (getElementById (doc st) (fp @ ''env-vars-list-container'') = Some c'
      \<longrightarrow> (\<exists>st' row. addEnvVarField fp st = Some st'
             \<and> children_at (doc st') c' = children_at (doc st) c' @ [row]
             \<and> text_input_names row = [Some ''env_key[]'', Some ''env_value[]'']))"
proof (intro conjI impI)
  assume c: "getElementById (doc st) (fp @ ''args-list-container'') = Some c"
  obtain e cs where n: "node_at (doc st) c = Some (Element e cs)"
    using getElementById_node [OF c] by blast
  have "text_input_names (field_row argument_row_html) = [Some ''arg_item[]'']"
    by (simp add: text_input_names_def field_row_def argument_row_html_def text_input_def
        remove_button_def ws_def new_elem_def is_text_input_def)
  then show "\<exists>st' row. addArgumentField fp st = Some st'
             \<and> children_at (doc st') c = children_at (doc st) c @ [row]
             \<and> text_input_names row = [Some ''arg_item[]'']"
    by (simp add: addArgumentField_present [OF c] children_at_add_child [OF n])
next
  assume c: "getElementById (doc st) (fp @ ''env-vars-list-container'') = Some c'"
  obtain e cs where n: "node_at (doc st) c' = Some (Element e cs)"
    using getElementById_node [OF c] by blast
  have "text_input_names (field_row env_row_html) = [Some ''env_key[]'', Some ''env_value[]'']"
    by (simp add: text_input_names_def field_row_def env_row_html_def text_input_def
        remove_button_def ws_def new_elem_def is_text_input_def)
  then show "\<exists>st' row. addEnvVarField fp st = Some st'
             \<and> children_at (doc st') c' = children_at (doc st) c' @ [row]
             \<and> text_input_names row = [Some ''env_key[]'', Some ''env_value[]'']"
    by (simp add: addEnvVarField_present [OF c] children_at_add_child [OF n])
qed

text \<open>The two insertions on the form with prefix \<^verbatim>\<open>edit-\<close> of the sample page.\<close>

theorem inserted_row_field_names_witness:
  "getElementById (doc sample_state) (''edit-'' @ ''args-list-container'') = Some [0, 1, 1, 2]
   \<and> getElementById (doc sample_state) (''edit-'' @ ''env-vars-list-container'') = Some [0, 1, 3]
   \<and> (\<exists>st' row. addArgumentField ''edit-'' sample_state = Some st'
          \<and> children_at (doc st') [0, 1, 1, 2] = children_at (doc sample_state) [0, 1, 1, 2] @ [row]
          \<and> text_input_names row = [Some ''arg_item[]''])
   \<and> (\<exists>st' row. addEnvVarField ''edit-'' sample_state = Some st'
          \<and> children_at (doc st') [0, 1, 3] = children_at (doc sample_state) [0, 1, 3] @ [row]
          \<and> text_input_names row = [Some ''env_key[]'', Some ''env_value[]''])"
proof -
  have h1: "getElementById (doc sample_state) (''edit-'' @ ''args-list-container'') = Some [0, 1, 1, 2]"
    by code_simp
  have h2: "getElementById (doc sample_state) (''edit-'' @ ''env-vars-list-container'') = Some [0, 1, 3]"
    by code_simp
  from inserted_row_field_names [of sample_state "''edit-''" "[0, 1, 1, 2]" "[0, 1, 3]"] h1 h2
  show ?thesis by blast
qed

text \<open>
  The claim as stated fails on the sample page: the one row that \<open>addArgumentField\<close>
  puts into the container of the form \<^verbatim>\<open>edit-\<close> has the text input names
  \<^verbatim>\<open>arg_item[]\<close>, which is not \<^verbatim>\<open>arg_item\<close>.
\<close>

theorem inserted_row_field_names_counterexample:
  "map_option (\<lambda>st'. map text_input_names (children_at (doc st') [0, 1, 1, 2]))
     (addArgumentField ''edit-'' sample_state) = Some [[Some ''arg_item[]'']]
   \<and> [Some ''arg_item[]''] \<noteq> [Some ''arg_item'']"
  by code_simp

text \<open>
  C6. For both kinds of row, every prefix whose container is in the document and every
  document: the insertion appends the new row behind the children the container had,
  and \<open>removeDynamicField\<close>, called right after on the new row or on any element inside
  it, gives back the state before the insertion. So the container has its old number
  of children again, and they, like the rest of the document, are unchanged.
\<close>

theorem add_then_remove_restores:
  "(getElementById (doc st) (fp @ ''args-list-container'') = Some c
      \<and> (r = [] \<or> elem_at argument_row_html r \<noteq> None)
      \<longrightarrow> (\<exists>st1. addArgumentField fp st = Some st1
             \<and> children_at (doc st1) c = children_at (doc st) c @ [field_row argument_row_html]
             \<and> removeDynamicField (Some (c @ length (children_at (doc st) c) # r)) st1 = Some st))
   \<and> (getElementById (doc st) (fp @ ''env-vars-list-container'') = Some c'
      \<and> (r' = [] \<or> elem_at env_row_html r' \<noteq> None)
      \<longrightarrow> (\<exists>st1. addEnvVarField fp st = Some st1
             \<and> children_at (doc st1) c' = children_at (doc st) c' @ [field_row env_row_html]
             \<and> removeDynamicField (Some (c' @ length (children_at (doc st) c') # r')) st1 = Some st))"
proof (intro conjI impI)
  assume a: "getElementById (doc st) (fp @ ''args-list-container'') = Some c
      \<and> (r = [] \<or> elem_at argument_row_html r \<noteq> None)"
  then have c: "getElementById (doc st) (fp @ ''args-list-container'') = Some c" by simp
  show "\<exists>st1. addArgumentField fp st = Some st1
             \<and> children_at (doc st1) c = children_at (doc st) c @ [field_row argument_row_html]
             \<and> removeDynamicField (Some (c @ length (children_at (doc st) c) # r)) st1 = Some st"
    using add_then_remove [where r = r, OF c argument_row_no_marker]
    by (simp add: addArgumentField_present [OF c])
next
  assume a: "getElementById (doc st) (fp @ ''env-vars-list-container'') = Some c'
      \<and> (r' = [] \<or> elem_at env_row_html r' \<noteq> None)"
  then have c: "getElementById (doc st) (fp @ ''env-vars-list-container'') = Some c'" by simp
  show "\<exists>st1. addEnvVarField fp st = Some st1
             \<and> children_at (doc st1) c' = children_at (doc st) c' @ [field_row env_row_html]
             \<and> removeDynamicField (Some (c' @ length (children_at (doc st) c') # r')) st1 = Some st"
    using add_then_remove [where r = r', OF c env_row_no_marker]
    by (simp add: addEnvVarField_present [OF c])
qed

text \<open>
  On the sample page: an argument row for the form \<^verbatim>\<open>edit-\<close>, removed through its
  button, and a variable row, removed through the input of the value.
\<close>

theorem add_then_remove_restores_witness:
  "getElementById (doc sample_state) (''edit-'' @ ''args-list-container'') = Some [0, 1, 1, 2]
   \<and> elem_at argument_row_html [3, 1] \<noteq> None
   \<and> getElementById (doc sample_state) (''edit-'' @ ''env-vars-list-container'') = Some [0, 1, 3]
   \<and> elem_at env_row_html [3, 1] \<noteq> None
   \<and> (\<exists>st1. addArgumentField ''edit-'' sample_state = Some st1
          \<and> removeDynamicField
               (Some ([0, 1, 1, 2] @ length (children_at (doc sample_state) [0, 1, 1, 2]) # [3, 1])) st1
              = Some sample_state)
   \<and> (\<exists>st1. addEnvVarField ''edit-'' sample_state = Some st1
          \<and> removeDynamicField
               (Some ([0, 1, 3] @ length (children_at (doc sample_state) [0, 1, 3]) # [3, 1])) st1
              = Some sample_state)"
proof -
  have h1: "getElementById (doc sample_state) (''edit-'' @ ''args-list-container'') = Some [0, 1, 1, 2]"
    by code_simp
  have h2: "elem_at argument_row_html [3, 1] \<noteq> None"
    by code_simp
  have h3: "getElementById (doc sample_state) (''edit-'' @ ''env-vars-list-container'') = Some [0, 1, 3]"
    by code_simp
  have h4: "elem_at env_row_html [3, 1] \<noteq> None"
    by code_simp
  from add_then_remove_restores
         [of sample_state "''edit-''" "[0, 1, 1, 2]" "[3, 1]" "[0, 1, 3]" "[3, 1]"] h1 h2 h3 h4
  show ?thesis by blast
qed

text \<open>
  C10. \<open>removeDynamicField\<close>, called on an element that itself has the class
  \<^verbatim>\<open>dynamic-field-row\<close>, removes that very element: the search of \<^verbatim>\<open>closest\<close> starts
  at the element. And the branch that writes the warning is taken exactly when neither
  the element nor any of its ancestors has the class (the paths \<open>q\<close> below are the
  element and its ancestors); in every other case nothing is written.
\<close>

theorem removeDynamicField_matches_self:
  "(elem_at (doc st) p = Some e \<and> ''dynamic-field-row'' \<in> set (classes e)
      \<longrightarrow> removeDynamicField (Some p) st = Some (st\<lparr>doc := remove_at p (doc st)\<rparr>))
   \<and> ((\<exists>st'. removeDynamicField (Some p) st = Some st' \<and> console st' \<noteq> console st)
        = (\<forall>q. q \<noteq> [] \<and> prefix q p \<longrightarrow> \<not> has_class (doc st) q ''dynamic-field-row''))"
proof (intro conjI impI)
  assume "elem_at (doc st) p = Some e \<and> ''dynamic-field-row'' \<in> set (classes e)"
  then have "has_class (doc st) p ''dynamic-field-row''" by (simp add: has_class_def)
  then have "closest_path (doc st) p ''dynamic-field-row'' = Some p" by (rule closest_path_self)
  then show "removeDynamicField (Some p) st = Some (st\<lparr>doc := remove_at p (doc st)\<rparr>)"
    by (rule removeDynamicField_found)
next
  show "(\<exists>st'. removeDynamicField (Some p) st = Some st' \<and> console st' \<noteq> console st)
        = (\<forall>q. q \<noteq> [] \<and> prefix q p \<longrightarrow> \<not> has_class (doc st) q ''dynamic-field-row'')"
  proof (cases "closest_path (doc st) p ''dynamic-field-row''")
    case None
    then have "\<exists>st'. removeDynamicField (Some p) st = Some st' \<and> console st' \<noteq> console st"
      by (simp add: removeDynamicField_not_found console_write_def)
    with None show ?thesis by (simp add: closest_path_None_iff [symmetric])
  next
    case (Some r)
    then have "\<not> (\<exists>st'. removeDynamicField (Some p) st = Some st' \<and> console st' \<noteq> console st)"
      by (simp add: removeDynamicField_found)
    with Some show ?thesis by (simp add: closest_path_None_iff [symmetric])
  qed
qed

text \<open>The row of \<open>one_row_state\<close>, passed itself.\<close>

theorem removeDynamicField_matches_self_witness:
  "elem_at (doc one_row_state) [0, 0] = Some ((new_elem ''div'')\<lparr>classes := [''row'', ''dynamic-field-row'']\<rparr>)
   \<and> ''dynamic-field-row'' \<in> set (classes ((new_elem ''div'')\<lparr>classes := [''row'', ''dynamic-field-row'']\<rparr>))
   \<and> removeDynamicField (Some [0, 0]) one_row_state
       = Some (one_row_state\<lparr>doc := remove_at [0, 0] (doc one_row_state)\<rparr>)
   \<and> remove_at [0, 0] (doc one_row_state) = [with_id ''div'' ''args-list-container'' []]"
proof -
  have h1: "elem_at (doc one_row_state) [0, 0]
              = Some ((new_elem ''div'')\<lparr>classes := [''row'', ''dynamic-field-row'']\<rparr>)"
    by code_simp
  have h2: "''dynamic-field-row''
              \<in> set (classes ((new_elem ''div'')\<lparr>classes := [''row'', ''dynamic-field-row'']\<rparr>))"
    by simp
  have h3: "remove_at [0, 0] (doc one_row_state) = [with_id ''div'' ''args-list-container'' []]"
    by code_simp
  from removeDynamicField_matches_self
         [of one_row_state "[0, 0]" "(new_elem ''div'')\<lparr>classes := [''row'', ''dynamic-field-row'']\<rparr>"]
       h1 h2 h3
  show ?thesis by blast
qed

section \<open>Lookups after a removal or an insertion\<close>

lemma elems_of_append: "elems_of (xs @ ys) = elems_of xs @ elems_of ys"
  by (induction xs rule: elems_of.induct) auto

lemma find_append:
  "List.find P (xs @ ys) = (case List.find P xs of None \<Rightarrow> List.find P ys | Some x \<Rightarrow> Some x)"
  by (induction xs) auto

lemma lookup_find: "lookup d i = List.find (\<lambda>e. elem_id e = Some i) (elems_of d)"
proof (induction d i rule: getElementById.induct)
  case (1 i)
  then show ?case by (simp add: lookup_def)
next
  case (2 t ns i)
  show ?case
  proof (cases "getElementById ns i")
    case None
    with 2 show ?thesis by (simp add: lookup_def)
  next
    case (Some r)
    then have "r \<noteq> []" by (rule getElementById_nonempty)
    then have "elem_at (Text t # ns) (bump r) = elem_at ns r" by (rule elem_at_bump)
    with 2 Some show ?thesis by (simp add: lookup_def)
  qed
next
  case (3 e cs ns i)
  show ?case
  proof (cases "elem_id e = Some i")
    case True
    then show ?thesis by (simp add: lookup_def)
  next
    case False
    show ?thesis
    proof (cases "getElementById cs i")
      case (Some r)
      then have "r \<noteq> []" by (rule getElementById_nonempty)
      moreover obtain x where "elem_at cs r = Some x"
        using getElementById_elem [OF Some] by blast
      ultimately show ?thesis
        using 3(1) [OF False] False Some
        by (auto simp: lookup_def find_append split: option.splits)
    next
      case None
      note cs = None
      show ?thesis
      proof (cases "getElementById ns i")
        case None
        with 3 False cs show ?thesis by (simp add: lookup_def find_append split: option.splits)
      next
        case (Some r)
        then have "r \<noteq> []" by (rule getElementById_nonempty)
        then have "elem_at (Element e cs # ns) (bump r) = elem_at ns r" by (rule elem_at_bump)
        with 3 False cs Some show ?thesis
          by (simp add: lookup_def find_append split: option.splits)
      qed
    qed
  qed
qed

lemma elems_of_remove_at:
  "node_at d r = Some n
     \<Longrightarrow> \<exists>xs ys. elems_of d = xs @ elems_of [n] @ ys \<and> elems_of (remove_at r d) = xs @ ys"
proof (induction r arbitrary: d)
  case Nil
  then show ?case by simp
next
  case (Cons k r)
  then have k: "k < length d" by (auto split: if_splits)
  have d: "d = take k d @ [d ! k] @ drop (Suc k) d"
    using k by (simp add: id_take_nth_drop [symmetric])
  show ?case
  proof (cases "r = []")
    case True
    with Cons.prems k have n: "n = d ! k" by simp
    have "elems_of d = elems_of (take k d) @ elems_of [n] @ elems_of (drop (Suc k) d)"
      by (subst d) (simp only: elems_of_append n)
    moreover have "elems_of (remove_at (k # r) d) = elems_of (take k d) @ elems_of (drop (Suc k) d)"
      using True k by (simp add: elems_of_append)
    ultimately show ?thesis by blast
  next
    case False
    with Cons.prems k obtain e cs where dk: "d ! k = Element e cs" and cs: "node_at cs r = Some n"
      by (cases "d ! k") auto
    from Cons.IH [OF cs] obtain xs ys where
      xy: "elems_of cs = xs @ elems_of [n] @ ys" "elems_of (remove_at r cs) = xs @ ys"
      by blast
    have 1: "elems_of d = (elems_of (take k d) @ e # xs) @ elems_of [n] @ (ys @ elems_of (drop (Suc k) d))"
      by (subst d) (simp add: elems_of_append dk xy del: append_take_drop_id)
    have "remove_at (k # r) d = take k d @ [Element e (remove_at r cs)] @ drop (Suc k) d"
      using False k dk by (simp add: upd_conv_take_nth_drop)
    then have 2: "elems_of (remove_at (k # r) d)
        = (elems_of (take k d) @ e # xs) @ (ys @ elems_of (drop (Suc k) d))"
      by (simp add: elems_of_append xy)
    from 1 2 show ?thesis by blast
  qed
qed

lemma lookup_remove_at:
  assumes "node_at d r = Some n" and "\<And>e. e \<in> set (elems_of [n]) \<Longrightarrow> elem_id e \<noteq> Some i"
  shows "lookup (remove_at r d) i = lookup d i"
proof -
  from elems_of_remove_at [OF assms(1)] obtain xs ys where
    xy: "elems_of d = xs @ elems_of [n] @ ys" "elems_of (remove_at r d) = xs @ ys"
    by blast
  have "List.find (\<lambda>e. elem_id e = Some i) (elems_of [n]) = None"
    using assms(2) by (auto simp: find_None_iff)
  then show ?thesis by (simp add: lookup_find xy find_append split: option.splits)
qed

lemma node_at_child:
  "node_at d c = Some (Element e cs) \<Longrightarrow> k < length cs \<Longrightarrow> node_at d (c @ [k]) = Some (cs ! k)"
proof (induction c arbitrary: d)
  case Nil
  then show ?case by simp
next
  case (Cons j c)
  then show ?case by (cases "d ! j") (auto split: if_splits)
qed

lemma lookup_add_child:
  assumes "node_at d c = Some (Element e cs)"
    and "\<And>x. x \<in> set (elems_of [n]) \<Longrightarrow> elem_id x \<noteq> Some i"
  shows "lookup (modify_at c (add_child n) d) i = lookup d i"
proof -
  let ?d = "modify_at c (add_child n) d"
  have "node_at ?d c = Some (Element e (cs @ [n]))" using assms(1) by (rule node_at_add_child)
  then have "node_at ?d (c @ [length cs]) = Some n" using node_at_child [of ?d c e "cs @ [n]" "length cs"] by simp
  from lookup_remove_at [OF this assms(2)] show ?thesis
    by (simp add: remove_added_child [OF assms(1)])
qed

lemma form_invariant_same_lookups:
  assumes "lookup d' (fp @ ''stdio-fields-container'') = lookup d (fp @ ''stdio-fields-container'')"
    and "lookup d' (fp @ ''http-fields-container'') = lookup d (fp @ ''http-fields-container'')"
    and "lookup d' (fp @ ''command'') = lookup d (fp @ ''command'')"
    and "lookup d' (fp @ ''url'') = lookup d (fp @ ''url'')"
  shows "form_invariant d' fp = form_invariant d fp"
  unfolding form_invariant_def section_shown_def assms by (rule refl)

lemma lookup_cases:
  "(getElementById d i = None \<and> lookup d i = None)
   \<or> (\<exists>p e. getElementById d i = Some p \<and> lookup d i = Some e)"
  using getElementById_elem [of d i] by (cases "getElementById d i") (auto simp: lookup_def)

lemma section_shown_toggled_stdio:
  "section_shown (toggled_doc v fp d) (fp @ ''stdio-fields-container'')
     = (v = ''stdio'' \<and> getElementById d (fp @ ''stdio-fields-container'') \<noteq> None)"
  using lookup_cases [of d "fp @ ''stdio-fields-container''"]
  by (auto simp add: section_shown_def lookup_toggled_stdio visible_def simp del: lookup_None)

lemma section_shown_toggled_http:
  "section_shown (toggled_doc v fp d) (fp @ ''http-fields-container'')
     = ((v = ''sse'' \<or> v = ''streamable_http'')
        \<and> getElementById d (fp @ ''http-fields-container'') \<noteq> None)"
  using lookup_cases [of d "fp @ ''http-fields-container''"]
  by (auto simp add: section_shown_def lookup_toggled_http visible_def simp del: lookup_None)

lemma form_invariant_toggled: "form_invariant (toggled_doc v fp d) fp"
  unfolding form_invariant_def section_shown_toggled_stdio section_shown_toggled_http
    lookup_toggled_command lookup_toggled_url
  by (auto split: option.splits)

lemma lookup_toggled_other:
  assumes "fpA \<noteq> fpB" and "sfx \<in> id_suffixes"
  shows "lookup (toggled_doc v fpA d) (fpB @ sfx) = lookup d (fpB @ sfx)"
proof -
  have ne: "\<And>x. x \<in> id_suffixes \<Longrightarrow> fpB @ sfx \<noteq> fpA @ x"
    using prefixed_id_eq assms by metis
  have m: "fpB @ sfx \<noteq> fpA @ ''stdio-fields-container''"
    "fpB @ sfx \<noteq> fpA @ ''http-fields-container''"
    "fpB @ sfx \<noteq> fpA @ ''command''" "fpB @ sfx \<noteq> fpA @ ''url''"
    by (rule ne, simp add: id_suffixes_def)+
  show ?thesis
    by (simp add: toggled_doc_def reset_doc_def lookup_write_other m)
qed

lemma form_invariant_toggled_other:
  assumes "fp' \<noteq> fp"
  shows "form_invariant (toggled_doc v fp' d) fp = form_invariant d fp"
  by (rule form_invariant_same_lookups)
     (simp_all add: lookup_toggled_other [OF assms] id_suffixes_def)

lemma field_row_no_ids:
  "x \<in> set (elems_of [field_row argument_row_html]) \<Longrightarrow> elem_id x = None"
  "x \<in> set (elems_of [field_row env_row_html]) \<Longrightarrow> elem_id x = None"
  by (auto simp: field_row_def argument_row_html_def env_row_html_def text_input_def
      remove_button_def ws_def new_elem_def)

lemma form_invariant_add_child:
  assumes "getElementById d i = Some c" and "\<And>x. x \<in> set (elems_of [n]) \<Longrightarrow> elem_id x = None"
  shows "form_invariant (modify_at c (add_child n) d) fp = form_invariant d fp"
proof -
  obtain e cs where n: "node_at d c = Some (Element e cs)"
    using getElementById_node [OF assms(1)] by blast
  have "\<And>j. lookup (modify_at c (add_child n) d) j = lookup d j"
    using assms(2) by (intro lookup_add_child [OF n]) auto
  then show ?thesis by (intro form_invariant_same_lookups) simp_all
qed

lemma closest_path_has_class: "closest_path d p cls = Some r \<Longrightarrow> has_class d r cls"
proof (induction d p cls rule: closest_path.induct)
  case (1 d p cls)
  show ?case
  proof (cases "p = []")
    case True
    with "1.prems" show ?thesis by (subst (asm) closest_path.simps) simp
  next
    case False
    show ?thesis
    proof (cases "has_class d p cls")
      case True
      with False "1.prems" show ?thesis by (subst (asm) closest_path.simps) simp
    next
      case h: False
      have "closest_path d p cls = closest_path d (butlast p) cls"
        using False h by (subst closest_path.simps) simp
      with "1.prems" "1.IH" [OF False h] show ?thesis by simp
    qed
  qed
qed

section \<open>The invariant of a form\<close>

text \<open>
  C5, as the code has it. After every call of \<open>toggleServerTypeSpecificFields v fp\<close>, for
  every variant, prefix and document (whether or not the four elements are there), at
  most one of the two sections of the form \<open>fp\<close> is shown, and the command input and the
  url input, where present, are required exactly when their section is the one shown.
  This invariant of the form \<open>fp\<close> is kept by a call of the toggle for any other prefix
  and by both insertions for any prefix. It is kept by \<open>removeDynamicField\<close> when the
  row that is removed holds none of the four elements of the form (no element with one
  of the four ids). A removal that takes one of the four elements out of the document
  can break it, as the counterexample below shows.
\<close>

theorem form_invariant_established_and_kept:
  "(\<exists>st'. toggleServerTypeSpecificFields v fp st = Some st' \<and> form_invariant (doc st') fp)
   \<and> (form_invariant (doc st) fp \<and> fp' \<noteq> fp
        \<longrightarrow> (\<exists>st'. toggleServerTypeSpecificFields v fp' st = Some st'
               \<and> form_invariant (doc st') fp))
   \<and> (form_invariant (doc st) fp
        \<longrightarrow> (\<exists>st'. addArgumentField fa st = Some st' \<and> form_invariant (doc st') fp)
            \<and> (\<exists>st'. addEnvVarField fa st = Some st' \<and> form_invariant (doc st') fp))
   \<and> (form_invariant (doc st) fp
       \<and> (\<forall>r n x. closest_path (doc st) p ''dynamic-field-row'' = Some r
              \<and> node_at (doc st) r = Some n \<and> x \<in> set (elems_of [n])
              \<longrightarrow> elem_id x \<notin> {Some (fp @ ''stdio-fields-container''),
                                Some (fp @ ''http-fields-container''),
                                Some (fp @ ''command''), Some (fp @ ''url'')})
        \<longrightarrow> (\<exists>st'. removeDynamicField (Some p) st = Some st' \<and> form_invariant (doc st') fp))"
proof (intro conjI impI)
  show "\<exists>st'. toggleServerTypeSpecificFields v fp st = Some st' \<and> form_invariant (doc st') fp"
    using toggle_doc [of v fp st] by (auto simp: form_invariant_toggled)
next
  assume "form_invariant (doc st) fp \<and> fp' \<noteq> fp"
  then show "\<exists>st'. toggleServerTypeSpecificFields v fp' st = Some st' \<and> form_invariant (doc st') fp"
    using toggle_doc [of v fp' st] by (auto simp: form_invariant_toggled_other)
next
  assume inv: "form_invariant (doc st) fp"
  show "\<exists>st'. addArgumentField fa st = Some st' \<and> form_invariant (doc st') fp"
  proof (cases "getElementById (doc st) (fa @ ''args-list-container'')")
    case None
    with inv show ?thesis by (simp add: addArgumentField_def cong: console_write_cong)
  next
    case (Some c)
    with inv show ?thesis
      by (simp add: addArgumentField_present form_invariant_add_child [OF Some] field_row_no_ids)
  qed
next
  assume inv: "form_invariant (doc st) fp"
  show "\<exists>st'. addEnvVarField fa st = Some st' \<and> form_invariant (doc st') fp"
  proof (cases "getElementById (doc st) (fa @ ''env-vars-list-container'')")
    case None
    with inv show ?thesis by (simp add: addEnvVarField_def cong: console_write_cong)
  next
    case (Some c)
    with inv show ?thesis
      by (simp add: addEnvVarField_present form_invariant_add_child [OF Some] field_row_no_ids)
  qed
next
  assume a: "form_invariant (doc st) fp
       \<and> (\<forall>r n x. closest_path (doc st) p ''dynamic-field-row'' = Some r
              \<and> node_at (doc st) r = Some n \<and> x \<in> set (elems_of [n])
              \<longrightarrow> elem_id x \<notin> {Some (fp @ ''stdio-fields-container''),
                                Some (fp @ ''http-fields-container''),
                                Some (fp @ ''command''), Some (fp @ ''url'')})"
  show "\<exists>st'. removeDynamicField (Some p) st = Some st' \<and> form_invariant (doc st') fp"
  proof (cases "closest_path (doc st) p ''dynamic-field-row''")
    case None
    with a show ?thesis by (simp add: removeDynamicField_not_found cong: console_write_cong)
  next
    case (Some r)
    show ?thesis
    proof (cases "node_at (doc st) r")
      case None
      then have "elem_at (doc st) r = None" by (cases "elem_at (doc st) r") (auto simp: elem_at_node_at)
      moreover have "has_class (doc st) r ''dynamic-field-row''"
        using Some closest_path_has_class by blast
      ultimately show ?thesis by (simp add: has_class_def)
    next
      case n: (Some n)
      have "\<And>x. x \<in> set (elems_of [n]) \<Longrightarrow>
              elem_id x \<notin> {Some (fp @ ''stdio-fields-container''),
                            Some (fp @ ''http-fields-container''),
                            Some (fp @ ''command''), Some (fp @ ''url'')}"
        using a Some n by blast
      then have "form_invariant (remove_at r (doc st)) fp = form_invariant (doc st) fp"
        by (intro form_invariant_same_lookups lookup_remove_at [OF n]) auto
      with a Some show ?thesis by (simp add: removeDynamicField_found)
    qed
  qed
qed

text \<open>
  On \<open>settled_state\<close>, whose invariant holds: the toggle for another prefix, both
  insertions, and the removal of the one row through its button.
\<close>

theorem form_invariant_established_and_kept_witness:
  "form_invariant (doc settled_state) [] \<and> ''x-'' \<noteq> []
   \<and> closest_path (doc settled_state) [0, 1, 0, 0] ''dynamic-field-row'' = Some [0, 1, 0]
   \<and> (\<exists>st'. toggleServerTypeSpecificFields ''sse'' [] settled_state = Some st'
          \<and> form_invariant (doc st') [])
   \<and> (\<exists>st'. toggleServerTypeSpecificFields ''sse'' ''x-'' settled_state = Some st'
          \<and> form_invariant (doc st') [])
   \<and> (\<exists>st'. addArgumentField [] settled_state = Some st' \<and> form_invariant (doc st') [])
   \<and> (\<exists>st'. addEnvVarField [] settled_state = Some st' \<and> form_invariant (doc st') [])
   \<and> (\<exists>st'. removeDynamicField (Some [0, 1, 0, 0]) settled_state = Some st'
          \<and> form_invariant (doc st') [])"
proof -
  have h1: "form_invariant (doc settled_state) []" by code_simp
  have h2: "''x-'' \<noteq> []" by simp
  have c: "closest_path (doc settled_state) [0, 1, 0, 0] ''dynamic-field-row'' = Some [0, 1, 0]"
    by code_simp
  have n: "node_at (doc settled_state) [0, 1, 0]
             = Some (Element ((new_elem ''div'')\<lparr>classes := [''row'', ''dynamic-field-row'']\<rparr>)
                       [Element (new_elem ''button'') []])"
    by code_simp
  have h3: "\<forall>r n x. closest_path (doc settled_state) [0, 1, 0, 0] ''dynamic-field-row'' = Some r
              \<and> node_at (doc settled_state) r = Some n \<and> x \<in> set (elems_of [n])
              \<longrightarrow> elem_id x \<notin> {Some ([] @ ''stdio-fields-container''),
                                Some ([] @ ''http-fields-container''),
                                Some ([] @ ''command''), Some ([] @ ''url'')}"
  proof (intro allI impI)
    fix r m x
    assume a: "closest_path (doc settled_state) [0, 1, 0, 0] ''dynamic-field-row'' = Some r
              \<and> node_at (doc settled_state) r = Some m \<and> x \<in> set (elems_of [m])"
    have r: "r = [0, 1, 0]" using a c by (metis option.sel)
    have m: "m = Element ((new_elem ''div'')\<lparr>classes := [''row'', ''dynamic-field-row'']\<rparr>)
                       [Element (new_elem ''button'') []]"
      using a n unfolding r by (metis option.sel)
    have "elem_id x = None" using a unfolding m by (auto simp: new_elem_def)
    then show "elem_id x \<notin> {Some ([] @ ''stdio-fields-container''),
                                Some ([] @ ''http-fields-container''),
                                Some ([] @ ''command''), Some ([] @ ''url'')}"
      by simp
  qed
  from form_invariant_established_and_kept
         [of "''sse''" "[]" settled_state "''x-''" "[]" "[0, 1, 0, 0]"] h1 h2 h3 c
  show ?thesis by blast
qed

text \<open>
  The counterexample to the claim as stated. On \<open>marked_section_state\<close> all four
  elements of the form with the empty prefix are present. After the call with variant
  \<^verbatim>\<open>stdio\<close> the invariant holds: the stdio section is shown and the command input is
  required. The stdio section has the class \<^verbatim>\<open>dynamic-field-row\<close>, so
  \<open>removeDynamicField\<close> on the button inside it removes the section. Then the command
  input is still required and no stdio section is shown.
\<close>

theorem form_invariant_removal_counterexample:
  "getElementById (doc marked_section_state) ''stdio-fields-container'' = Some [0]
   \<and> getElementById (doc marked_section_state) ''http-fields-container'' = Some [1]
   \<and> getElementById (doc marked_section_state) ''command'' = Some [2]
   \<and> getElementById (doc marked_section_state) ''url'' = Some [3]
   \<and> map_option (\<lambda>s. form_invariant (doc s) [])
         (toggleServerTypeSpecificFields ''stdio'' [] marked_section_state) = Some True
   \<and> map_option (\<lambda>s. form_invariant (doc s) [])
         (Option.bind (toggleServerTypeSpecificFields ''stdio'' [] marked_section_state)
            (removeDynamicField (Some [0, 0]))) = Some False"
  by code_simp

section \<open>What the toggle writes to the console\<close>

lemma console_console_write: "console (console_write l m st) = console st @ [(l, m)]"
  by (simp add: console_write_def)

lemma toggle_console:
  "\<exists>st'. toggleServerTypeSpecificFields v fp st = Some st'
     \<and> console st' = console st
          @ [(Debug, ''[toggleServerTypeSpecificFields] Called for prefix '' @ apo @ fp @ apo
                       @ '' with type '' @ apo @ v @ apo)]
          @ (if getElementById (doc st) (fp @ ''stdio-fields-container'') = None
             then [(Warn, ''[toggleServerTypeSpecificFields] Element not found: '' @ fp
                            @ ''stdio-fields-container'')] else [])
          @ (if getElementById (doc st) (fp @ ''http-fields-container'') = None
             then [(Warn, ''[toggleServerTypeSpecificFields] Element not found: '' @ fp
                            @ ''http-fields-container'')] else [])
          @ [(Debug,
              if v = ''stdio'' \<and> getElementById (doc st) (fp @ ''stdio-fields-container'') \<noteq> None
              then ''[toggleServerTypeSpecificFields] Showing stdio fields for '' @ fp
              else if (v = ''sse'' \<or> v = ''streamable_http'')
                      \<and> getElementById (doc st) (fp @ ''http-fields-container'') \<noteq> None
              then ''[toggleServerTypeSpecificFields] Showing http fields for '' @ fp
              else ''[toggleServerTypeSpecificFields] No specific type matched or element missing for ''
                     @ fp @ '', hiding both sections.'')]"
  unfolding toggleServerTypeSpecificFields_def Let_def guarded_set_display guarded_set_required
  by (auto simp: present_set_display console_console_write cong: console_write_cong)

section \<open>Missing elements\<close>

text \<open>
  C8, as the code has it. None of the three operations throws, whatever is missing from
  the document: each returns a state. The theorem gives the whole of what each call
  writes to the console. The toggle writes its opening debug message, one warning for
  each of the two section containers that is missing, and the debug message of the
  branch taken, and nothing else: what it writes depends on the variant, the prefix and
  the presence of the two containers only, so a missing command or url input is passed
  over without any diagnostic. An insertion whose container is missing and a removal
  that finds no marked element write one warning and leave the document as it is; an
  insertion that finds its container and a removal that finds a row write nothing. In
  the toggle, every section that is present is hidden or shown according to the variant
  and every input that is present has \<^verbatim>\<open>required\<close> set or cleared, whichever other
  elements are missing, with one coupling: an input is made required only if its
  section container is present.
\<close>

theorem operations_never_throw:
  "(\<exists>st'. toggleServerTypeSpecificFields v fp st = Some st'
      \<and> console st' = console st
           @ [(Debug, ''[toggleServerTypeSpecificFields] Called for prefix '' @ apo @ fp @ apo
                        @ '' with type '' @ apo @ v @ apo)]
           @ (if getElementById (doc st) (fp @ ''stdio-fields-container'') = None
              then [(Warn, ''[toggleServerTypeSpecificFields] Element not found: '' @ fp
                             @ ''stdio-fields-container'')] else [])
           @ (if getElementById (doc st) (fp @ ''http-fields-container'') = None
              then [(Warn, ''[toggleServerTypeSpecificFields] Element not found: '' @ fp
                             @ ''http-fields-container'')] else [])
           @ [(Debug,
               if v = ''stdio'' \<and> getElementById (doc st) (fp @ ''stdio-fields-container'') \<noteq> None
               then ''[toggleServerTypeSpecificFields] Showing stdio fields for '' @ fp
               else if (v = ''sse'' \<or> v = ''streamable_http'')
                       \<and> getElementById (doc st) (fp @ ''http-fields-container'') \<noteq> None
               then ''[toggleServerTypeSpecificFields] Showing http fields for '' @ fp
               else ''[toggleServerTypeSpecificFields] No specific type matched or element missing for ''
                      @ fp @ '', hiding both sections.'')]
      \<and> lookup (doc st') (fp @ ''stdio-fields-container'')
          = map_option (set_display_elem (if v = ''stdio'' then ''block'' else ''none''))
              (lookup (doc st) (fp @ ''stdio-fields-container''))
      \<and> lookup (doc st') (fp @ ''http-fields-container'')
          = map_option
              (set_display_elem (if v = ''sse'' \<or> v = ''streamable_http'' then ''block'' else ''none''))
              (lookup (doc st) (fp @ ''http-fields-container''))
      \<and> lookup (doc st') (fp @ ''command'')
          = map_option
              (set_required_elem
                 (v = ''stdio'' \<and> getElementById (doc st) (fp @ ''stdio-fields-container'') \<noteq> None))
              (lookup (doc st) (fp @ ''command''))
      \<and> lookup (doc st') (fp @ ''url'')
          = map_option
              (set_required_elem
                 ((v = ''sse'' \<or> v = ''streamable_http'')
                  \<and> getElementById (doc st) (fp @ ''http-fields-container'') \<noteq> None))
              (lookup (doc st) (fp @ ''url'')))
   \<and> (\<exists>st'. addArgumentField fp st = Some st'
        \<and> (getElementById (doc st) (fp @ ''args-list-container'') = None
             \<longrightarrow> st' = console_write Warn
                          (''[addArgumentField] Container not found: '' @ fp
                             @ ''args-list-container'') st)
        \<and> (getElementById (doc st) (fp @ ''args-list-container'') \<noteq> None
             \<longrightarrow> console st' = console st))
   \<and> (\<exists>st'. addEnvVarField fp st = Some st'
        \<and> (getElementById (doc st) (fp @ ''env-vars-list-container'') = None
             \<longrightarrow> st' = console_write Warn
                          (''[addEnvVarField] Container not found: '' @ fp
                             @ ''env-vars-list-container'') st)
        \<and> (getElementById (doc st) (fp @ ''env-vars-list-container'') \<noteq> None
             \<longrightarrow> console st' = console st))
   \<and> (\<exists>st'. removeDynamicField (Some p) st = Some st'
        \<and> (closest_path (doc st) p ''dynamic-field-row'' = None
             \<longrightarrow> st' = console_write Warn
                          (''[removeDynamicField] Could not find parent '' @ apo
                             @ ''.dynamic-field-row'' @ apo @ '' to remove.'') st)
        \<and> (closest_path (doc st) p ''dynamic-field-row'' \<noteq> None
             \<longrightarrow> console st' = console st))"
proof (intro conjI)
  obtain st' where t: "toggleServerTypeSpecificFields v fp st = Some st'"
    and w: "console st' = console st
           @ [(Debug, ''[toggleServerTypeSpecificFields] Called for prefix '' @ apo @ fp @ apo
                        @ '' with type '' @ apo @ v @ apo)]
           @ (if getElementById (doc st) (fp @ ''stdio-fields-container'') = None
              then [(Warn, ''[toggleServerTypeSpecificFields] Element not found: '' @ fp
                             @ ''stdio-fields-container'')] else [])
           @ (if getElementById (doc st) (fp @ ''http-fields-container'') = None
              then [(Warn, ''[toggleServerTypeSpecificFields] Element not found: '' @ fp
                             @ ''http-fields-container'')] else [])
           @ [(Debug,
               if v = ''stdio'' \<and> getElementById (doc st) (fp @ ''stdio-fields-container'') \<noteq> None
               then ''[toggleServerTypeSpecificFields] Showing stdio fields for '' @ fp
               else if (v = ''sse'' \<or> v = ''streamable_http'')
                       \<and> getElementById (doc st) (fp @ ''http-fields-container'') \<noteq> None
               then ''[toggleServerTypeSpecificFields] Showing http fields for '' @ fp
               else ''[toggleServerTypeSpecificFields] No specific type matched or element missing for ''
                      @ fp @ '', hiding both sections.'')]"
    using toggle_console by blast
  have d: "doc st' = toggled_doc v fp (doc st)"
    using toggle_doc [of v fp st] t by auto
  have l: "lookup (doc st') (fp @ ''stdio-fields-container'')
          = map_option (set_display_elem (if v = ''stdio'' then ''block'' else ''none''))
              (lookup (doc st) (fp @ ''stdio-fields-container''))"
    "lookup (doc st') (fp @ ''http-fields-container'')
          = map_option
              (set_display_elem (if v = ''sse'' \<or> v = ''streamable_http'' then ''block'' else ''none''))
              (lookup (doc st) (fp @ ''http-fields-container''))"
    "lookup (doc st') (fp @ ''command'')
          = map_option
              (set_required_elem
                 (v = ''stdio'' \<and> getElementById (doc st) (fp @ ''stdio-fields-container'') \<noteq> None))
              (lookup (doc st) (fp @ ''command''))"
    "lookup (doc st') (fp @ ''url'')
          = map_option
              (set_required_elem
                 ((v = ''sse'' \<or> v = ''streamable_http'')
                  \<and> getElementById (doc st) (fp @ ''http-fields-container'') \<noteq> None))
              (lookup (doc st) (fp @ ''url''))"
    by (simp_all only: d lookup_toggled_stdio lookup_toggled_http lookup_toggled_command
        lookup_toggled_url)
  from t w l show "\<exists>st'. toggleServerTypeSpecificFields v fp st = Some st'
      \<and> console st' = console st
           @ [(Debug, ''[toggleServerTypeSpecificFields] Called for prefix '' @ apo @ fp @ apo
                        @ '' with type '' @ apo @ v @ apo)]
           @ (if getElementById (doc st) (fp @ ''stdio-fields-container'') = None
              then [(Warn, ''[toggleServerTypeSpecificFields] Element not found: '' @ fp
                             @ ''stdio-fields-container'')] else [])
           @ (if getElementById (doc st) (fp @ ''http-fields-container'') = None
              then [(Warn, ''[toggleServerTypeSpecificFields] Element not found: '' @ fp
                             @ ''http-fields-container'')] else [])
           @ [(Debug,
               if v = ''stdio'' \<and> getElementById (doc st) (fp @ ''stdio-fields-container'') \<noteq> None
               then ''[toggleServerTypeSpecificFields] Showing stdio fields for '' @ fp
               else if (v = ''sse'' \<or> v = ''streamable_http'')
                       \<and> getElementById (doc st) (fp @ ''http-fields-container'') \<noteq> None
               then ''[toggleServerTypeSpecificFields] Showing http fields for '' @ fp
               else ''[toggleServerTypeSpecificFields] No specific type matched or element missing for ''
                      @ fp @ '', hiding both sections.'')]
      \<and> lookup (doc st') (fp @ ''stdio-fields-container'')
          = map_option (set_display_elem (if v = ''stdio'' then ''block'' else ''none''))
              (lookup (doc st) (fp @ ''stdio-fields-container''))
      \<and> lookup (doc st') (fp @ ''http-fields-container'')
          = map_option
              (set_display_elem (if v = ''sse'' \<or> v = ''streamable_http'' then ''block'' else ''none''))
              (lookup (doc st) (fp @ ''http-fields-container''))
      \<and> lookup (doc st') (fp @ ''command'')
          = map_option
              (set_required_elem
                 (v = ''stdio'' \<and> getElementById (doc st) (fp @ ''stdio-fields-container'') \<noteq> None))
              (lookup (doc st) (fp @ ''command''))
      \<and> lookup (doc st') (fp @ ''url'')
          = map_option
              (set_required_elem
                 ((v = ''sse'' \<or> v = ''streamable_http'')
                  \<and> getElementById (doc st) (fp @ ''http-fields-container'') \<noteq> None))
              (lookup (doc st) (fp @ ''url''))"
    by blast
next
  show "\<exists>st'. addArgumentField fp st = Some st'
        \<and> (getElementById (doc st) (fp @ ''args-list-container'') = None
             \<longrightarrow> st' = console_write Warn
                          (''[addArgumentField] Container not found: '' @ fp
                             @ ''args-list-container'') st)
        \<and> (getElementById (doc st) (fp @ ''args-list-container'') \<noteq> None
             \<longrightarrow> console st' = console st)"
  proof (cases "getElementById (doc st) (fp @ ''args-list-container'')")
    case None
    then show ?thesis by (simp add: addArgumentField_def cong: console_write_cong)
  next
    case (Some c)
    then show ?thesis by (simp add: addArgumentField_present)
  qed
next
  show "\<exists>st'. addEnvVarField fp st = Some st'
        \<and> (getElementById (doc st) (fp @ ''env-vars-list-container'') = None
             \<longrightarrow> st' = console_write Warn
                          (''[addEnvVarField] Container not found: '' @ fp
                             @ ''env-vars-list-container'') st)
        \<and> (getElementById (doc st) (fp @ ''env-vars-list-container'') \<noteq> None
             \<longrightarrow> console st' = console st)"
  proof (cases "getElementById (doc st) (fp @ ''env-vars-list-container'')")
    case None
    then show ?thesis by (simp add: addEnvVarField_def cong: console_write_cong)
  next
    case (Some c)
    then show ?thesis by (simp add: addEnvVarField_present)
  qed
next
  show "\<exists>st'. removeDynamicField (Some p) st = Some st'
        \<and> (closest_path (doc st) p ''dynamic-field-row'' = None
             \<longrightarrow> st' = console_write Warn
                          (''[removeDynamicField] Could not find parent '' @ apo
                             @ ''.dynamic-field-row'' @ apo @ '' to remove.'') st)
        \<and> (closest_path (doc st) p ''dynamic-field-row'' \<noteq> None
             \<longrightarrow> console st' = console st)"
  proof (cases "closest_path (doc st) p ''dynamic-field-row''")
    case None
    then show ?thesis by (simp add: removeDynamicField_not_found cong: console_write_cong)
  next
    case (Some r)
    then show ?thesis by (simp add: removeDynamicField_found)
  qed
qed

text \<open>
  On the page with one lone command input (no url input, no section): the toggle
  returns and writes its opening message, the two warnings about the sections and the
  message of the last branch, nothing about the url input; both insertions find no
  container, the removal finds no marked element.
\<close>

theorem operations_never_throw_witness:
  "getElementById (doc lone_command_state) ([] @ ''args-list-container'') = None
   \<and> getElementById (doc lone_command_state) ([] @ ''env-vars-list-container'') = None
   \<and> closest_path (doc lone_command_state) [0] ''dynamic-field-row'' = None
   \<and> getElementById (doc lone_command_state) ([] @ ''url'') = None
   \<and> (\<exists>st'. toggleServerTypeSpecificFields ''sse'' [] lone_command_state = Some st'
          \<and> map fst (console st') = [Debug, Warn, Warn, Debug])
   \<and> addArgumentField [] lone_command_state
        = Some (console_write Warn
                  (''[addArgumentField] Container not found: '' @ [] @ ''args-list-container'')
                  lone_command_state)
   \<and> addEnvVarField [] lone_command_state
        = Some (console_write Warn
                  (''[addEnvVarField] Container not found: '' @ [] @ ''env-vars-list-container'')
                  lone_command_state)
   \<and> removeDynamicField (Some [0]) lone_command_state
        = Some (console_write Warn
                  (''[removeDynamicField] Could not find parent '' @ apo
                     @ ''.dynamic-field-row'' @ apo @ '' to remove.'') lone_command_state)"
proof -
  have h1: "getElementById (doc lone_command_state) ([] @ ''args-list-container'') = None"
    by code_simp
  have h2: "getElementById (doc lone_command_state) ([] @ ''env-vars-list-container'') = None"
    by code_simp
  have h3: "closest_path (doc lone_command_state) [0] ''dynamic-field-row'' = None"
    by code_simp
  have h4: "getElementById (doc lone_command_state) ([] @ ''stdio-fields-container'') = None"
    by code_simp
  have h5: "getElementById (doc lone_command_state) ([] @ ''http-fields-container'') = None"
    by code_simp
  have h6: "getElementById (doc lone_command_state) ([] @ ''url'') = None"
    by code_simp
  have c0: "console lone_command_state = []"
    by (simp add: lone_command_state_def)
  note inst = operations_never_throw [of "''sse''" "[]" lone_command_state "[0]"]
  from inst obtain st' where "toggleServerTypeSpecificFields ''sse'' [] lone_command_state = Some st'"
    and "console st' = console lone_command_state
           @ [(Debug, ''[toggleServerTypeSpecificFields] Called for prefix '' @ apo @ [] @ apo
                        @ '' with type '' @ apo @ ''sse'' @ apo)]
           @ (if getElementById (doc lone_command_state) ([] @ ''stdio-fields-container'') = None
              then [(Warn, ''[toggleServerTypeSpecificFields] Element not found: '' @ []
                             @ ''stdio-fields-container'')] else [])
           @ (if getElementById (doc lone_command_state) ([] @ ''http-fields-container'') = None
              then [(Warn, ''[toggleServerTypeSpecificFields] Element not found: '' @ []
                             @ ''http-fields-container'')] else [])
           @ [(Debug,
               if ''sse'' = ''stdio''
                  \<and> getElementById (doc lone_command_state) ([] @ ''stdio-fields-container'') \<noteq> None
               then ''[toggleServerTypeSpecificFields] Showing stdio fields for '' @ []
               else if (''sse'' = ''sse'' \<or> ''sse'' = ''streamable_http'')
                       \<and> getElementById (doc lone_command_state) ([] @ ''http-fields-container'') \<noteq> None
               then ''[toggleServerTypeSpecificFields] Showing http fields for '' @ []
               else ''[toggleServerTypeSpecificFields] No specific type matched or element missing for ''
                      @ [] @ '', hiding both sections.'')]"
    by blast
  then have t: "\<exists>st'. toggleServerTypeSpecificFields ''sse'' [] lone_command_state = Some st'
          \<and> map fst (console st') = [Debug, Warn, Warn, Debug]"
    unfolding h4 h5 c0 by auto
  from inst h1 h2 h3 h6 t show ?thesis by blast
qed

text \<open>
  The counterexample to the claim as stated, which has every lookup failure logged. The
  page \<open>no_command_state\<close> has both sections and the url input and no command input. The
  call with variant \<^verbatim>\<open>stdio\<close> writes the two debug messages it writes on a complete
  page and nothing about the command input.
\<close>

theorem missing_command_not_logged_counterexample:
  "getElementById (doc no_command_state) ''command'' = None
   \<and> map_option console (toggleServerTypeSpecificFields ''stdio'' [] no_command_state)
       = Some [(Debug, ''[toggleServerTypeSpecificFields] Called for prefix '' @ apo @ apo
                         @ '' with type '' @ apo @ ''stdio'' @ apo),
               (Debug, ''[toggleServerTypeSpecificFields] Showing stdio fields for '')]"
  by code_simp

section \<open>The prefix that the load handler derives\<close>

text \<open>
  C4. The claim: for every id that ends with \<^verbatim>\<open>server_type\<close>, the prefix passed to the
  toggle is the id without that ending, also when \<^verbatim>\<open>server_type\<close> occurs earlier in
  the id. The handler selects the elements by the ending of the id and then removes the
  first occurrence of \<^verbatim>\<open>server_type\<close>, wherever it is. For the select with the id
  \<^verbatim>\<open>server_types-server_type\<close> the prefix derived is \<^verbatim>\<open>s-server_type\<close>, not
  \<^verbatim>\<open>server_types-\<close>; the toggle then looks for the ids of a form that does not exist,
  and the handler leaves the document of \<open>plural_state\<close> as it was, nothing hidden and
  nothing required.
\<close>

theorem formPrefix_of_first_occurrence:
  "is_server_type_select plural_select
   \<and> id_prop plural_select = ''server_types-'' @ ''server_type''
   \<and> formPrefix_of plural_select = ''s-server_type''
   \<and> formPrefix_of plural_select \<noteq> ''server_types-''
   \<and> querySelectorAll_selects (doc plural_state) = [[0]]
   \<and> map_option doc (onDOMContentLoaded Some (\<lambda>w. Some) plural_state) = Some (doc plural_state)
   \<and> map_option (\<lambda>s. lookup (doc s) ''server_types-command'')
         (toggleServerTypeSpecificFields ''stdio'' ''server_types-'' plural_state)
       = Some (Some ((new_elem ''input'')\<lparr>elem_id := Some ''server_types-command'', required := True\<rparr>))"
  by code_simp

end
